theory Spec2Isabelle
  imports Complex_Main
begin

section \<open>Numbers and the Math library\<close>

text \<open>
  The simulation core of \<^verbatim>\<open>src/game.js\<close> is embedded function by function.
  JavaScript numbers are modelled as follows: every quantity that the game computes with
  fractions (coordinates, angles, speeds, timers, progress) is a \<^typ>\<open>real\<close>, so
  arithmetic is exact and IEEE rounding, infinities and NaN are not represented; the counters
  that only ever hold integers (\<^verbatim>\<open>lap\<close>, \<^verbatim>\<open>checkpoint\<close>,
  \<^verbatim>\<open>lastCheckpoint\<close>, \<^verbatim>\<open>position\<close>) are \<^typ>\<open>int\<close>.
  Objects that the code mutates in place are passed and returned explicitly; the kart array
  is a list and object identity (\<^verbatim>\<open>other === kart\<close>) is equality of list indices.
  A failing property access on \<^verbatim>\<open>undefined\<close> is the value \<open>Inl TypeError\<close>.
\<close>

datatype error = TypeError

definition Math_hypot :: "real \<Rightarrow> real \<Rightarrow> real" where
  "Math_hypot a b = sqrt (a * a + b * b)"

text \<open>
  \<^verbatim>\<open>Math.atan2(y, x)\<close> is a builtin of the language; it is written out from its
  ECMAScript description: the angle in \<open>(-\<pi>, \<pi>]\<close> of the point \<open>(x, y)\<close>, and 0 at the origin.
\<close>

definition Math_atan2 :: "real \<Rightarrow> real \<Rightarrow> real" where
  "Math_atan2 y x =
     (if 0 < x then arctan (y / x)
      else if x < 0 then (if 0 \<le> y then arctan (y / x) + pi else arctan (y / x) - pi)
      else if 0 < y then pi / 2
      else if y < 0 then - (pi / 2)
      else 0)"

definition Math_sign :: "real \<Rightarrow> real" where
  "Math_sign v = (if 0 < v then 1 else if v < 0 then - 1 else 0)"

text \<open>The remainder operator \<^verbatim>\<open>%\<close> on integers: the sign follows the dividend.\<close>

definition js_rem :: "int \<Rightarrow> int \<Rightarrow> int" where
  "js_rem a b = sgn a * (\<bar>a\<bar> mod \<bar>b\<bar>)"

section \<open>CONFIG\<close>

definition MAX_SPEED :: real where "MAX_SPEED = 200"
definition ACCELERATION :: real where "ACCELERATION = 120"
definition DECELERATION :: real where "DECELERATION = 80"
definition BRAKE_POWER :: real where "BRAKE_POWER = 200"
definition STEERING_BASE :: real where "STEERING_BASE = 3.5"
definition STEERING_SPEED_FACTOR :: real where "STEERING_SPEED_FACTOR = 0.7"
definition DRIFT_GRIP :: real where "DRIFT_GRIP = 0.92"
definition DRIFT_BOOST_RATE :: real where "DRIFT_BOOST_RATE = 40"
definition DRIFT_BOOST_MAX :: real where "DRIFT_BOOST_MAX = 100"
definition DRIFT_BOOST_SPEED :: real where "DRIFT_BOOST_SPEED = 50"
definition DRIFT_BOOST_DURATION :: real where "DRIFT_BOOST_DURATION = 1.5"
definition TRACK_CENTER_X :: real where "TRACK_CENTER_X = 400"
definition TRACK_CENTER_Y :: real where "TRACK_CENTER_Y = 300"
definition TRACK_RADIUS_X :: real where "TRACK_RADIUS_X = 320"
definition TRACK_RADIUS_Y :: real where "TRACK_RADIUS_Y = 220"
definition TRACK_WIDTH :: real where "TRACK_WIDTH = 120"
definition TOTAL_LAPS :: int where "TOTAL_LAPS = 3"
definition CHECKPOINT_COUNT :: int where "CHECKPOINT_COUNT = 4"
definition RUBBER_BAND_STRENGTH :: real where "RUBBER_BAND_STRENGTH = 0.3"
definition BOOST_DURATION :: real where "BOOST_DURATION = 2"
definition SHIELD_DURATION :: real where "SHIELD_DURATION = 5"
definition SLOW_DURATION :: real where "SLOW_DURATION = 3"
definition SLOW_FACTOR :: real where "SLOW_FACTOR = 0.5"

lemmas CONFIG_defs =
  MAX_SPEED_def ACCELERATION_def DECELERATION_def BRAKE_POWER_def STEERING_BASE_def
  STEERING_SPEED_FACTOR_def DRIFT_GRIP_def DRIFT_BOOST_RATE_def DRIFT_BOOST_MAX_def
  DRIFT_BOOST_SPEED_def DRIFT_BOOST_DURATION_def TRACK_CENTER_X_def TRACK_CENTER_Y_def
  TRACK_RADIUS_X_def TRACK_RADIUS_Y_def TRACK_WIDTH_def TOTAL_LAPS_def CHECKPOINT_COUNT_def
  RUBBER_BAND_STRENGTH_def BOOST_DURATION_def SHIELD_DURATION_def SLOW_DURATION_def
  SLOW_FACTOR_def

section \<open>Input state\<close>

text \<open>
  The global \<^verbatim>\<open>keys\<close> object. Its fields \<^verbatim>\<open>up, down, left, right, drift,
  useItem\<close> carry the prefix \<open>key\<close> here.
\<close>

record Keys =
  keyUp :: bool
  keyDown :: bool
  keyLeft :: bool
  keyRight :: bool
  keyDrift :: bool
  keyUseItem :: bool

section \<open>Kart\<close>

datatype Item = Boost | Shield | Slow

text \<open>
  The fields of \<^verbatim>\<open>class Kart\<close> that the simulation reads or writes. The fields
  \<^verbatim>\<open>x\<close>, \<^verbatim>\<open>y\<close> and \<^verbatim>\<open>velocity.x\<close>, \<^verbatim>\<open>velocity.y\<close> are
  named \<open>xpos\<close>, \<open>ypos\<close>, \<open>velocityX\<close>, \<open>velocityY\<close>; \<^verbatim>\<open>item\<close> is \<open>None\<close>
  for \<^verbatim>\<open>null\<close>. The drawing attributes (colour, name, sprite size) and the two fields
  that are only assigned in the constructor (\<^verbatim>\<open>targetAngle\<close>,
  \<^verbatim>\<open>aiWaypointIndex\<close>) are left out.
\<close>

record Kart =
  xpos :: real
  ypos :: real
  angle :: real
  speed :: real
  velocityX :: real
  velocityY :: real
  isPlayer :: bool
  drifting :: bool
  driftDirection :: real
  driftBoost :: real
  driftAngleOffset :: real
  boosting :: bool
  boostTimer :: real
  slowed :: bool
  slowTimer :: real
  shielded :: bool
  shieldTimer :: real
  item :: "Item option"
  lap :: int
  checkpoint :: int
  lastCheckpoint :: int
  totalProgress :: real
  position :: int
  finished :: bool
  finishTime :: real
  sparkTimer :: real

definition Kart_new :: "real \<Rightarrow> real \<Rightarrow> real \<Rightarrow> bool \<Rightarrow> Kart" where
  "Kart_new x y a p =
     \<lparr> xpos = x, ypos = y, angle = a, speed = 0, velocityX = 0, velocityY = 0,
       isPlayer = p, drifting = False, driftDirection = 0, driftBoost = 0,
       driftAngleOffset = 0, boosting = False, boostTimer = 0, slowed = False,
       slowTimer = 0, shielded = False, shieldTimer = 0, item = None, lap = 0,
       checkpoint = 0, lastCheckpoint = - 1, totalProgress = 0, position = 1,
       finished = False, finishTime = 0, sparkTimer = 0 \<rparr>"

definition getMaxSpeed :: "Kart \<Rightarrow> real" where
  "getMaxSpeed k =
     (let max0 = MAX_SPEED;
          max1 = (if boosting k then max0 + DRIFT_BOOST_SPEED else max0);
          max2 = (if slowed k then max1 * SLOW_FACTOR else max1)
      in max2)"

text \<open>\<^verbatim>\<open>Kart.update(dt)\<close>: the three effect timers, then the spark animation.\<close>

definition Kart_update :: "real \<Rightarrow> Kart \<Rightarrow> Kart" where
  "Kart_update dt k =
     (let k1 = (if boostTimer k > 0 then
                  (let b = k\<lparr>boostTimer := boostTimer k - dt\<rparr>
                   in if boostTimer b \<le> 0 then b\<lparr>boosting := False\<rparr> else b)
                else k);
          k2 = (if slowTimer k1 > 0 then
                  (let s = k1\<lparr>slowTimer := slowTimer k1 - dt\<rparr>
                   in if slowTimer s \<le> 0 then s\<lparr>slowed := False\<rparr> else s)
                else k1);
          k3 = (if shieldTimer k2 > 0 then
                  (let h = k2\<lparr>shieldTimer := shieldTimer k2 - dt\<rparr>
                   in if shieldTimer h \<le> 0 then h\<lparr>shielded := False\<rparr> else h)
                else k2)
      in if drifting k3 then k3\<lparr>sparkTimer := sparkTimer k3 + dt\<rparr>
         else k3\<lparr>sparkTimer := 0\<rparr>)"

definition applyBoost :: "Kart \<Rightarrow> Kart" where
  "applyBoost k = k\<lparr>boosting := True, boostTimer := DRIFT_BOOST_DURATION, driftBoost := 0\<rparr>"

text \<open>\<^verbatim>\<open>Kart.hit()\<close>: the returned flag and the kart after the call.\<close>

definition hit :: "Kart \<Rightarrow> bool \<times> Kart" where
  "hit k =
     (if shielded k then (False, k\<lparr>shielded := False, shieldTimer := 0\<rparr>)
      else (True, k\<lparr>speed := speed k * 0.3\<rparr>))"

section \<open>Track\<close>

record Checkpoint =
  cpx :: real
  cpy :: real
  cpangle :: real
  cpindex :: nat

record Waypoint =
  wpx :: real
  wpy :: real
  wpangle :: real

record Track =
  centerX :: real
  centerY :: real
  radiusX :: real
  radiusY :: real
  width :: real
  checkpoints :: "Checkpoint list"
  waypoints :: "Waypoint list"
  startLine :: "real \<times> real"

definition mkCheckpoint :: "nat \<Rightarrow> Checkpoint" where
  "mkCheckpoint i =
     (let a = (real i / real_of_int CHECKPOINT_COUNT) * pi * 2 - pi / 2
      in \<lparr> cpx = TRACK_CENTER_X + cos a * TRACK_RADIUS_X,
           cpy = TRACK_CENTER_Y + sin a * TRACK_RADIUS_Y,
           cpangle = a, cpindex = i \<rparr>)"

definition mkWaypoint :: "nat \<Rightarrow> Waypoint" where
  "mkWaypoint i =
     (let a = (real i / 32) * pi * 2 - pi / 2;
          variation = sin (a * 3) * 15
      in \<lparr> wpx = TRACK_CENTER_X + cos a * (TRACK_RADIUS_X + variation),
           wpy = TRACK_CENTER_Y + sin a * (TRACK_RADIUS_Y + variation),
           wpangle = a \<rparr>)"

text \<open>The constructor of \<^verbatim>\<open>class Track\<close>.\<close>

definition Track_new :: Track where
  "Track_new =
     \<lparr> centerX = TRACK_CENTER_X, centerY = TRACK_CENTER_Y,
       radiusX = TRACK_RADIUS_X, radiusY = TRACK_RADIUS_Y, width = TRACK_WIDTH,
       checkpoints = map mkCheckpoint [0 ..< nat CHECKPOINT_COUNT],
       waypoints = map mkWaypoint [0 ..< 32],
       startLine = (TRACK_CENTER_X, TRACK_CENTER_Y - TRACK_RADIUS_Y) \<rparr>"

definition getTrackDistance :: "Track \<Rightarrow> real \<Rightarrow> real \<Rightarrow> real" where
  "getTrackDistance t x y =
     (let dx = (x - centerX t) / radiusX t;
          dy = (y - centerY t) / radiusY t
      in sqrt (dx * dx + dy * dy))"

text \<open>
  \<^verbatim>\<open>getNearestWaypoint\<close>: the linear scan. The running minimum starts at
  \<^verbatim>\<open>Infinity\<close>, which is \<open>None\<close> here.
\<close>

fun nearestScan :: "Waypoint list \<Rightarrow> real \<Rightarrow> real \<Rightarrow> nat \<Rightarrow> nat \<Rightarrow> real option \<Rightarrow> nat" where
  "nearestScan [] x y i nearest minDist = nearest"
| "nearestScan (wp # wps) x y i nearest minDist =
     (let d = Math_hypot (x - wpx wp) (y - wpy wp)
      in if (case minDist of None \<Rightarrow> True | Some m \<Rightarrow> d < m)
         then nearestScan wps x y (i + 1) i (Some d)
         else nearestScan wps x y (i + 1) nearest minDist)"

definition getNearestWaypoint :: "Track \<Rightarrow> real \<Rightarrow> real \<Rightarrow> nat" where
  "getNearestWaypoint t x y = nearestScan (waypoints t) x y 0 0 None"

text \<open>
  \<^verbatim>\<open>checkCheckpoint\<close>. The checkpoint object is read once, before the index may
  advance, and the same object is used for the progress score at the end. An index outside
  the array reads \<^verbatim>\<open>undefined\<close>, and the access to its \<^verbatim>\<open>x\<close> throws.
  \<^verbatim>\<open>gameState.raceTime\<close> is the parameter \<open>raceTime\<close>.
\<close>

definition checkpointHit :: "real \<Rightarrow> Kart \<Rightarrow> bool" where
  "checkpointHit d kart \<longleftrightarrow> d < 50 \<and> lastCheckpoint kart \<noteq> checkpoint kart"

definition advanceCheckpoint :: "real \<Rightarrow> Kart \<Rightarrow> Kart" where
  "advanceCheckpoint raceTime kart =
     (let k1 = kart\<lparr>lastCheckpoint := checkpoint kart\<rparr>;
          k2 = k1\<lparr>checkpoint := js_rem (checkpoint k1 + 1) CHECKPOINT_COUNT\<rparr>
      in if checkpoint k2 = 0 \<and> lastCheckpoint k2 = CHECKPOINT_COUNT - 1 then
           (let k3 = k2\<lparr>lap := lap k2 + 1\<rparr>
            in if lap k3 \<ge> TOTAL_LAPS \<and> \<not> finished k3
               then k3\<lparr>finished := True, finishTime := raceTime\<rparr>
               else k3)
         else k2)"

definition checkCheckpoint :: "Track \<Rightarrow> real \<Rightarrow> Kart \<Rightarrow> error + Kart" where
  "checkCheckpoint t raceTime kart =
     (if checkpoint kart < 0 \<or> int (length (checkpoints t)) \<le> checkpoint kart
      then Inl TypeError
      else
        (let cp = checkpoints t ! nat (checkpoint kart);
             d = Math_hypot (xpos kart - cpx cp) (ypos kart - cpy cp);
             k1 = (if checkpointHit d kart then advanceCheckpoint raceTime kart else kart)
         in Inr (k1\<lparr>totalProgress :=
                   real_of_int (lap k1 * CHECKPOINT_COUNT + checkpoint k1)
                   + (1 - Math_hypot (xpos k1 - cpx cp) (ypos k1 - cpy cp) / 200)\<rparr>)))"

section \<open>Power-ups and items\<close>

text \<open>
  \<^verbatim>\<open>class PowerUp\<close>, without the cosmetic \<^verbatim>\<open>bobOffset\<close>; the fields
  \<^verbatim>\<open>x\<close>, \<^verbatim>\<open>y\<close>, \<^verbatim>\<open>size\<close> are \<open>pux\<close>, \<open>puy\<close>, \<open>puSize\<close>.
  Every call of \<^verbatim>\<open>Math.random()\<close> is a parameter of the function that makes it.
\<close>

record PowerUp =
  pux :: real
  puy :: real
  active :: bool
  respawnTimer :: real
  puSize :: real

definition PowerUp_new :: "real \<Rightarrow> real \<Rightarrow> PowerUp" where
  "PowerUp_new x y = \<lparr> pux = x, puy = y, active = True, respawnTimer = 0, puSize = 24 \<rparr>"

definition PowerUp_update :: "real \<Rightarrow> PowerUp \<Rightarrow> PowerUp" where
  "PowerUp_update dt p =
     (if \<not> active p then
        (let p1 = p\<lparr>respawnTimer := respawnTimer p - dt\<rparr>
         in if respawnTimer p1 \<le> 0 then p1\<lparr>active := True\<rparr> else p1)
      else p)"

text \<open>
  \<^verbatim>\<open>collect()\<close> with the random number \<open>r\<close> it draws. An index outside the array of
  types would read \<^verbatim>\<open>undefined\<close>, which is as falsy as \<^verbatim>\<open>null\<close>.
\<close>

definition collect :: "real \<Rightarrow> PowerUp \<Rightarrow> PowerUp \<times> Item option" where
  "collect r p =
     (let p1 = p\<lparr>active := False, respawnTimer := 5\<rparr>;
          types = [Boost, Shield, Slow];
          n = \<lfloor>r * real (length types)\<rfloor>
      in (p1, if 0 \<le> n \<and> n < int (length types) then Some (types ! nat n) else None))"

text \<open>
  \<^verbatim>\<open>useItem(kart)\<close> for the kart at index \<open>i\<close> of \<^verbatim>\<open>game.karts\<close>, the array
  that the slow item walks through.
\<close>

definition useItem :: "nat \<Rightarrow> Kart list \<Rightarrow> Kart list" where
  "useItem i karts =
     (let it = item (karts ! i);
          ks = karts[i := (karts ! i)\<lparr>item := None\<rparr>]
      in case it of
           Some Boost \<Rightarrow> ks[i := (ks ! i)\<lparr>boosting := True, boostTimer := BOOST_DURATION\<rparr>]
         | Some Shield \<Rightarrow> ks[i := (ks ! i)\<lparr>shielded := True, shieldTimer := SHIELD_DURATION\<rparr>]
         | Some Slow \<Rightarrow>
             map (\<lambda>(j, other). if j \<noteq> i \<and> \<not> shielded other
                                then other\<lparr>slowed := True, slowTimer := SLOW_DURATION\<rparr>
                                else other)
               (enumerate 0 ks)
         | None \<Rightarrow> ks)"

section \<open>Physics step of the player\<close>

text \<open>The acceleration branch and the clamp to \<open>[0, maxSpeed]\<close>.\<close>

definition accelerate :: "Keys \<Rightarrow> real \<Rightarrow> Kart \<Rightarrow> Kart" where
  "accelerate keys dt kart =
     (let maxSpeed = getMaxSpeed kart;
          k1 = (if keyUp keys then kart\<lparr>speed := speed kart + ACCELERATION * dt\<rparr>
                else if keyDown keys then kart\<lparr>speed := speed kart - BRAKE_POWER * dt\<rparr>
                else kart\<lparr>speed := speed kart - DECELERATION * dt * 0.5\<rparr>)
      in k1\<lparr>speed := max 0 (min maxSpeed (speed k1))\<rparr>)"

definition steerRateOf :: "Kart \<Rightarrow> real" where
  "steerRateOf kart =
     (let speedFactor = 1 - (speed kart / MAX_SPEED) * STEERING_SPEED_FACTOR
      in STEERING_BASE * speedFactor)"

definition steeringOf :: "Keys \<Rightarrow> real" where
  "steeringOf keys =
     (let s0 = 0;
          s1 = (if keyLeft keys then - 1 else s0);
          s2 = (if keyRight keys then 1 else s1)
      in s2)"

text \<open>
  The block headed \<^verbatim>\<open>// Drift mechanics\<close>: the drifting branch, and the branch that
  releases a drift and steers normally. The argument is the kart after the clamp.
\<close>

definition driftMechanics :: "Keys \<Rightarrow> real \<Rightarrow> Kart \<Rightarrow> Kart" where
  "driftMechanics keys dt kart =
     (let steerRate = steerRateOf kart;
          steering = steeringOf keys
      in if keyDrift keys \<and> speed kart > 50 \<and> steering \<noteq> 0 then
           (let k1 = (if \<not> drifting kart
                      then kart\<lparr>drifting := True, driftDirection := steering\<rparr> else kart);
                k2 = k1\<lparr>driftBoost := min DRIFT_BOOST_MAX (driftBoost k1 + DRIFT_BOOST_RATE * dt)\<rparr>;
                k3 = k2\<lparr>driftAngleOffset :=
                         driftAngleOffset k2 + driftDirection k2 * steerRate * 0.5 * dt\<rparr>;
                k4 = k3\<lparr>driftAngleOffset := max (- 0.5) (min 0.5 (driftAngleOffset k3))\<rparr>;
                k5 = k4\<lparr>angle := angle k4 + steering * steerRate * 0.7 * dt\<rparr>
            in k5\<lparr>speed := speed k5 * DRIFT_GRIP\<rparr>)
         else
           (let k1 = (if drifting kart then
                        (let b = (if driftBoost kart > 30 then applyBoost kart else kart)
                         in b\<lparr>drifting := False, driftAngleOffset := 0, driftBoost := 0\<rparr>)
                      else kart)
            in k1\<lparr>angle := angle k1 + steering * steerRate * dt\<rparr>))"

definition movePlayer :: "real \<Rightarrow> Kart \<Rightarrow> Kart" where
  "movePlayer dt kart =
     (let moveAngle = angle kart + driftAngleOffset kart;
          k1 = kart\<lparr>velocityX := cos moveAngle * speed kart * 0.5,
                    velocityY := sin moveAngle * speed kart * 0.5\<rparr>
      in k1\<lparr>xpos := xpos k1 + velocityX k1 * dt, ypos := ypos k1 + velocityY k1 * dt\<rparr>)"

text \<open>
  \<^verbatim>\<open>updatePlayerKart(kart, dt)\<close> for the kart at index \<open>i\<close>. It reads and writes the
  global \<^verbatim>\<open>keys\<close> and, through \<^verbatim>\<open>useItem\<close>, the other karts.
\<close>

definition updatePlayerKart :: "nat \<Rightarrow> real \<Rightarrow> Keys \<times> Kart list \<Rightarrow> Keys \<times> Kart list" where
  "updatePlayerKart i dt st =
     (let keys = fst st; karts = snd st; kart = karts ! i
      in if finished kart then (keys, karts)
         else
           (let k1 = movePlayer dt (driftMechanics keys dt (accelerate keys dt kart));
                ks1 = karts[i := k1];
                used = (keyUseItem keys \<and> item k1 \<noteq> None);
                ks2 = (if used then useItem i ks1 else ks1);
                keys2 = (if used then keys\<lparr>keyUseItem := False\<rparr> else keys)
            in (keys2, ks2[i := Kart_update dt (ks2 ! i)])))"

section \<open>Physics step of an AI kart\<close>

text \<open>The two loops that bring an angle difference back into \<open>[-\<pi>, \<pi>]\<close>.\<close>

function wrapAbove :: "real \<Rightarrow> real" where
  "wrapAbove d = (if d > pi then wrapAbove (d - pi * 2) else d)"
  by pat_completeness auto
termination
proof (relation "measure (\<lambda>d. nat \<lceil>d\<rceil>)")
  show "wf (measure (\<lambda>d. nat \<lceil>d\<rceil>))" by simp
next
  fix d :: real
  assume "pi < d"
  moreover have "2 \<le> pi" by (rule pi_ge_two)
  ultimately have "\<lceil>d - pi * 2\<rceil> < \<lceil>d\<rceil>" and "0 < \<lceil>d\<rceil>" by linarith+
  then show "(d - pi * 2, d) \<in> measure (\<lambda>d. nat \<lceil>d\<rceil>)" by simp
qed

function wrapBelow :: "real \<Rightarrow> real" where
  "wrapBelow d = (if d < - pi then wrapBelow (d + pi * 2) else d)"
  by pat_completeness auto
termination
proof (relation "measure (\<lambda>d. nat \<lceil>- d\<rceil>)")
  show "wf (measure (\<lambda>d. nat \<lceil>- d\<rceil>))" by simp
next
  fix d :: real
  assume "d < - pi"
  moreover have "2 \<le> pi" by (rule pi_ge_two)
  ultimately have "\<lceil>- (d + pi * 2)\<rceil> < \<lceil>- d\<rceil>" and "0 < \<lceil>- d\<rceil>" by linarith+
  then show "(d + pi * 2, d) \<in> measure (\<lambda>d. nat \<lceil>- d\<rceil>)" by simp
qed

declare wrapAbove.simps [simp del] wrapBelow.simps [simp del]

definition wrapAngle :: "real \<Rightarrow> real" where
  "wrapAngle d = wrapBelow (wrapAbove d)"

text \<open>Steering towards the waypoint three ahead of the nearest one.\<close>

definition steerToWaypoint :: "Track \<Rightarrow> real \<Rightarrow> Kart \<Rightarrow> Kart" where
  "steerToWaypoint track dt kart =
     (let currentWaypoint = getNearestWaypoint track (xpos kart) (ypos kart);
          targetIndex = (currentWaypoint + 3) mod length (waypoints track);
          target = waypoints track ! targetIndex;
          targetAngle = Math_atan2 (wpy target - ypos kart) (wpx target - xpos kart);
          angleDiff = wrapAngle (targetAngle - angle kart);
          steerRate = STEERING_BASE * 0.8
      in if \<bar>angleDiff\<bar> > 0.1
         then kart\<lparr>angle := angle kart + Math_sign angleDiff * min \<bar>angleDiff\<bar> (steerRate * dt)\<rparr>
         else kart)"

text \<open>Rubber-banding; \<open>None\<close> is an \<^verbatim>\<open>undefined\<close> player kart.\<close>

definition rubberBand :: "Kart \<Rightarrow> Kart option \<Rightarrow> real" where
  "rubberBand kart playerKart =
     (let targetSpeed = MAX_SPEED * 0.85
      in case playerKart of
           None \<Rightarrow> targetSpeed
         | Some p \<Rightarrow>
             (let positionDiff = totalProgress kart - totalProgress p
              in if positionDiff > 0.5 then targetSpeed * (1 - RUBBER_BAND_STRENGTH * 0.5)
                 else if positionDiff < - 0.5 then targetSpeed * (1 + RUBBER_BAND_STRENGTH)
                 else targetSpeed))"

text \<open>
  One round of the avoidance loop, for the other kart at index \<open>j\<close>; the state of the loop is
  the kart being steered and the target speed.
\<close>

definition avoidStep :: "nat \<Rightarrow> real \<Rightarrow> nat \<times> Kart \<Rightarrow> Kart \<times> real \<Rightarrow> Kart \<times> real" where
  "avoidStep i dt jo st =
     (let j = fst jo; other = snd jo; kart = fst st; targetSpeed = snd st
      in if j = i then (kart, targetSpeed)
         else
           (let d = Math_hypot (xpos other - xpos kart) (ypos other - ypos kart);
                k1 = (if d < 60 then
                        (let avoidAngle = Math_atan2 (ypos kart - ypos other) (xpos kart - xpos other);
                             avoidDiff = wrapAngle (avoidAngle - angle kart)
                         in kart\<lparr>angle := angle kart + Math_sign avoidDiff * 0.5 * dt\<rparr>)
                      else kart);
                t1 = (if d < 40 then targetSpeed * 0.9 else targetSpeed)
            in (k1, t1)))"

text \<open>
  Steering, rubber-banding and avoidance: the kart and the target speed as they stand when
  the speed starts to ease towards the target.
\<close>

definition aiPlan :: "nat \<Rightarrow> real \<Rightarrow> Track \<Rightarrow> nat option \<Rightarrow> Kart list \<Rightarrow> Kart \<times> real" where
  "aiPlan i dt track playerKart karts =
     (let kart = steerToWaypoint track dt (karts ! i);
          targetSpeed = rubberBand kart (map_option (\<lambda>p. karts ! p) playerKart)
      in fold (avoidStep i dt) (enumerate 0 karts) (kart, targetSpeed))"

definition aiTargetSpeed :: "nat \<Rightarrow> real \<Rightarrow> Track \<Rightarrow> nat option \<Rightarrow> Kart list \<Rightarrow> real" where
  "aiTargetSpeed i dt track playerKart karts = snd (aiPlan i dt track playerKart karts)"

definition easeSpeed :: "real \<Rightarrow> real \<Rightarrow> Kart \<Rightarrow> Kart" where
  "easeSpeed dt targetSpeed kart =
     (let k1 = (if speed kart < targetSpeed
                then kart\<lparr>speed := speed kart + ACCELERATION * 0.8 * dt\<rparr>
                else kart\<lparr>speed := speed kart - DECELERATION * 0.5 * dt\<rparr>)
      in k1\<lparr>speed := max 0 (min (getMaxSpeed k1) (speed k1))\<rparr>)"

definition moveAI :: "real \<Rightarrow> Kart \<Rightarrow> Kart" where
  "moveAI dt kart =
     (let k1 = kart\<lparr>velocityX := cos (angle kart) * speed kart * 0.5,
                    velocityY := sin (angle kart) * speed kart * 0.5\<rparr>
      in k1\<lparr>xpos := xpos k1 + velocityX k1 * dt, ypos := ypos k1 + velocityY k1 * dt\<rparr>)"

text \<open>
  \<^verbatim>\<open>updateAIKart(kart, dt, track, playerKart, allKarts)\<close> for the kart at index \<open>i\<close>;
  \<open>playerKart\<close> is the index of the player's kart, and \<open>r\<close> is the random number drawn when
  the kart holds an item. With no waypoints the target is \<^verbatim>\<open>undefined\<close> and reading
  its \<^verbatim>\<open>y\<close> throws.
\<close>

definition updateAIKart ::
  "nat \<Rightarrow> real \<Rightarrow> Track \<Rightarrow> nat option \<Rightarrow> real \<Rightarrow> Kart list \<Rightarrow> error + Kart list" where
  "updateAIKart i dt track playerKart r karts =
     (if finished (karts ! i) then Inr karts
      else if waypoints track = [] then Inl TypeError
      else
        (let plan = aiPlan i dt track playerKart karts;
             targetSpeed = aiTargetSpeed i dt track playerKart karts;
             k1 = moveAI dt (easeSpeed dt targetSpeed (fst plan));
             ks1 = karts[i := k1];
             ks2 = (if item k1 \<noteq> None \<and> r < 0.01 then useItem i ks1 else ks1)
         in Inr (ks2[i := Kart_update dt (ks2 ! i)])))"

section \<open>Collision detection\<close>

text \<open>
  The first block of the per-kart loop of \<^verbatim>\<open>handleCollisions\<close>: the wall test and
  the snap back to the corridor limit. (A quotient by a zero radius is \<^verbatim>\<open>Infinity\<close>
  in the source and 0 here; the track of the game has positive radii.)
\<close>

definition innerLimit :: "Track \<Rightarrow> real" where
  "innerLimit track = 1 - (width track / 2 - 15) / min (radiusX track) (radiusY track)"

definition outerLimit :: "Track \<Rightarrow> real" where
  "outerLimit track = 1 + (width track / 2 - 15) / min (radiusX track) (radiusY track)"

definition trackBoundary :: "Track \<Rightarrow> Kart \<Rightarrow> Kart" where
  "trackBoundary track kart =
     (let trackDist = getTrackDistance track (xpos kart) (ypos kart)
      in if trackDist < innerLimit track \<or> trackDist > outerLimit track then
           (let k1 = kart\<lparr>speed := speed kart * 0.7\<rparr>;
                a = Math_atan2 (ypos k1 - centerY track) (xpos k1 - centerX track);
                targetDist = (if trackDist < innerLimit track
                              then innerLimit track else outerLimit track);
                k2 = k1\<lparr>xpos := centerX track + cos a * targetDist * radiusX track\<rparr>
            in k2\<lparr>ypos := centerY track + sin a * targetDist * radiusY track\<rparr>)
         else kart)"

text \<open>
  The inner loop over the power-ups for one kart; \<open>rs\<close> gives the random number that
  \<^verbatim>\<open>collect()\<close> draws at the power-up with a given index.
\<close>

fun pickupLoop :: "(nat \<Rightarrow> real) \<Rightarrow> nat \<Rightarrow> PowerUp list \<Rightarrow> Kart \<Rightarrow> Kart \<times> PowerUp list" where
  "pickupLoop rs n [] kart = (kart, [])"
| "pickupLoop rs n (powerUp # rest) kart =
     (if \<not> active powerUp \<or> item kart \<noteq> None \<or>
         \<not> Math_hypot (pux powerUp - xpos kart) (puy powerUp - ypos kart) < puSize powerUp + 10
      then (let res = pickupLoop rs (n + 1) rest kart in (fst res, powerUp # snd res))
      else
        (let c = collect (rs n) powerUp;
             res = pickupLoop rs (n + 1) rest (kart\<lparr>item := snd c\<rparr>)
         in (fst res, fst c # snd res)))"

text \<open>
  The per-kart loop: wall, checkpoint, power-ups, for the karts from index \<open>n\<close> on. The
  second and third arguments of \<^verbatim>\<open>checkCheckpoint\<close> are never read by it and are
  not passed.
\<close>

fun kartLoop ::
  "Track \<Rightarrow> real \<Rightarrow> (nat \<Rightarrow> nat \<Rightarrow> real) \<Rightarrow> nat \<Rightarrow> Kart list \<Rightarrow> PowerUp list
     \<Rightarrow> error + (Kart list \<times> PowerUp list)" where
  "kartLoop track raceTime rs n [] powerUps = Inr ([], powerUps)"
| "kartLoop track raceTime rs n (kart # rest) powerUps =
     (case checkCheckpoint track raceTime (trackBoundary track kart) of
        Inl e \<Rightarrow> Inl e
      | Inr k1 \<Rightarrow>
          (let picked = pickupLoop (rs n) 0 powerUps k1
           in case kartLoop track raceTime rs (n + 1) rest (snd picked) of
                Inl e \<Rightarrow> Inl e
              | Inr res \<Rightarrow> Inr (fst picked # fst res, snd res)))"

text \<open>The body of the kart-to-kart loop for the pair \<open>(i, j)\<close>.\<close>

definition bump :: "nat \<times> nat \<Rightarrow> Kart list \<Rightarrow> Kart list" where
  "bump ij karts =
     (let i = fst ij; j = snd ij;
          k1 = karts ! i; k2 = karts ! j;
          d = Math_hypot (xpos k2 - xpos k1) (ypos k2 - ypos k1);
          minDist = 25
      in if d < minDist then
           (let a = Math_atan2 (ypos k2 - ypos k1) (xpos k2 - xpos k1);
                overlap = minDist - d;
                k1a = k1\<lparr>xpos := xpos k1 - cos a * overlap / 2,
                         ypos := ypos k1 - sin a * overlap / 2\<rparr>;
                k2a = k2\<lparr>xpos := xpos k2 + cos a * overlap / 2,
                         ypos := ypos k2 + sin a * overlap / 2\<rparr>;
                speedDiff = speed k1a - speed k2a;
                k1b = k1a\<lparr>speed := speed k1a - speedDiff * 0.3\<rparr>;
                k2b = k2a\<lparr>speed := speed k2a + speedDiff * 0.3\<rparr>
            in karts[i := k1b, j := k2b])
         else karts)"

text \<open>The pairs \<open>i < j\<close> in the order in which the two nested loops visit them.\<close>

definition kartPairs :: "nat \<Rightarrow> (nat \<times> nat) list" where
  "kartPairs n = concat (map (\<lambda>i. map (\<lambda>j. (i, j)) [i + 1 ..< n]) [0 ..< n])"

definition kartCollisions :: "Kart list \<Rightarrow> Kart list" where
  "kartCollisions karts = fold bump (kartPairs (length karts)) karts"

definition handleCollisions ::
  "Track \<Rightarrow> real \<Rightarrow> (nat \<Rightarrow> nat \<Rightarrow> real) \<Rightarrow> Kart list \<Rightarrow> PowerUp list
     \<Rightarrow> error + (Kart list \<times> PowerUp list)" where
  "handleCollisions track raceTime rs karts powerUps =
     (case kartLoop track raceTime rs 0 karts powerUps of
        Inl e \<Rightarrow> Inl e
      | Inr res \<Rightarrow> Inr (kartCollisions (fst res), snd res))"

section \<open>Ranking and the race tick\<close>

text \<open>
  \<^verbatim>\<open>calculatePositions\<close>: a stable sort of the karts (as indices into the array)
  by descending progress, then the rank \<open>r + 1\<close> is written into the kart that stands at
  place \<open>r\<close> of the sorted copy.
\<close>

definition setPosition :: "nat \<times> nat \<Rightarrow> Kart list \<Rightarrow> Kart list" where
  "setPosition ri ks = ks[snd ri := (ks ! snd ri)\<lparr>position := int (fst ri) + 1\<rparr>]"

definition calculatePositions :: "Kart list \<Rightarrow> Kart list" where
  "calculatePositions karts =
     (let sorted = sort_key (\<lambda>i. - totalProgress (karts ! i)) [0 ..< length karts]
      in fold setPosition (enumerate 0 sorted) karts)"

text \<open>
  The loop of \<^verbatim>\<open>game.update\<close> over the karts: the physics step of each kart in array
  order. \<open>ri\<close> gives the random number an AI kart draws for its item.
\<close>

fun updateKarts ::
  "real \<Rightarrow> Track \<Rightarrow> nat option \<Rightarrow> (nat \<Rightarrow> real) \<Rightarrow> nat list \<Rightarrow> Keys \<times> Kart list
     \<Rightarrow> error + (Keys \<times> Kart list)" where
  "updateKarts dt track playerKart ri [] st = Inr st"
| "updateKarts dt track playerKart ri (i # is) st =
     (if isPlayer (snd st ! i)
      then updateKarts dt track playerKart ri is (updatePlayerKart i dt st)
      else (case updateAIKart i dt track playerKart (ri i) (snd st) of
              Inl e \<Rightarrow> Inl e
            | Inr ks \<Rightarrow> updateKarts dt track playerKart ri is (fst st, ks)))"

text \<open>\<^verbatim>\<open>this.karts.find(k => k.isPlayer)\<close>, as an index.\<close>

definition findPlayer :: "Kart list \<Rightarrow> nat option" where
  "findPlayer karts = List.find (\<lambda>i. isPlayer (karts ! i)) [0 ..< length karts]"

text \<open>
  The state of a running race (the global \<^verbatim>\<open>keys\<close>, the \<^verbatim>\<open>track\<close>,
  \<^verbatim>\<open>karts\<close> and \<^verbatim>\<open>powerUps\<close> of \<^verbatim>\<open>game\<close>, and
  \<^verbatim>\<open>gameState.raceTime\<close>), and the part of \<^verbatim>\<open>game.update(dt)\<close> that
  advances it: race time, physics step of every kart, collisions, power-up timers, ranking.
  The countdown before the race, the race-end flag and the restart after it (which builds new
  karts) are not part of the tick.
\<close>

record Race =
  raceKeys :: Keys
  raceTrack :: Track
  raceKarts :: "Kart list"
  racePowerUps :: "PowerUp list"
  raceTime :: real

definition raceTick ::
  "real \<Rightarrow> (nat \<Rightarrow> real) \<Rightarrow> (nat \<Rightarrow> nat \<Rightarrow> real) \<Rightarrow> Race \<Rightarrow> error + Race" where
  "raceTick dt ri rs g =
     (let t = raceTime g + dt;
          playerKart = findPlayer (raceKarts g)
      in case updateKarts dt (raceTrack g) playerKart ri [0 ..< length (raceKarts g)]
                (raceKeys g, raceKarts g) of
           Inl e \<Rightarrow> Inl e
         | Inr st \<Rightarrow>
             (case handleCollisions (raceTrack g) t rs (snd st) (racePowerUps g) of
                Inl e \<Rightarrow> Inl e
              | Inr res \<Rightarrow>
                  Inr (g\<lparr>raceKeys := fst st,
                         raceKarts := calculatePositions (fst res),
                         racePowerUps := map (PowerUp_update dt) (snd res),
                         raceTime := t\<rparr>)))"

text \<open>
  The frame loop \<^verbatim>\<open>game.loop\<close> calls \<^verbatim>\<open>update(dt)\<close> once per frame. Between two
  frames the input handlers may have written any value into \<^verbatim>\<open>keys\<close>. A run of the
  race is the fold of the tick over the frames; a frame supplies the keys as the handlers left
  them, the time step, and the random numbers drawn during the tick.
\<close>

type_synonym Frame = "Keys \<times> real \<times> (nat \<Rightarrow> real) \<times> (nat \<Rightarrow> nat \<Rightarrow> real)"

fun raceRun :: "Frame list \<Rightarrow> Race \<Rightarrow> error + Race" where
  "raceRun [] g = Inr g"
| "raceRun (f # fs) g =
     (case raceTick (fst (snd f)) (fst (snd (snd f))) (snd (snd (snd f))) (g\<lparr>raceKeys := fst f\<rparr>) of
        Inl e \<Rightarrow> Inl e
      | Inr g' \<Rightarrow> raceRun fs g')"

section \<open>Auxiliary predicates\<close>

text \<open>
  The race-progress fields of two karts agree; the speed of a kart lies between 0 and the
  largest value of \<^verbatim>\<open>getMaxSpeed()\<close>.
\<close>

definition sameProgress :: "Kart \<Rightarrow> Kart \<Rightarrow> bool" where
  "sameProgress a b \<longleftrightarrow>
     finished b = finished a \<and> finishTime b = finishTime a \<and> checkpoint b = checkpoint a \<and>
     lastCheckpoint b = lastCheckpoint a \<and> lap b = lap a \<and> isPlayer b = isPlayer a \<and>
     totalProgress b = totalProgress a"

definition speedOk :: "Kart \<Rightarrow> bool" where
  "speedOk k \<longleftrightarrow> 0 \<le> speed k \<and> speed k \<le> MAX_SPEED + DRIFT_BOOST_SPEED"

text \<open>What one physics step may do to any kart of the array.\<close>

definition physRel :: "Kart \<Rightarrow> Kart \<Rightarrow> bool" where
  "physRel a b \<longleftrightarrow> sameProgress a b \<and> (speedOk a \<longrightarrow> speedOk b)"

text \<open>
  What the per-kart loop of the collision pass may do to a kart, and what the kart-to-kart
  loop may do to the array.
\<close>

definition collRel :: "Kart \<Rightarrow> Kart \<Rightarrow> bool" where
  "collRel a b \<longleftrightarrow>
     isPlayer b = isPlayer a \<and>
     (finished a \<longrightarrow> finished b \<and> finishTime b = finishTime a) \<and>
     (checkpoint b = checkpoint a \<or> checkpoint b = (checkpoint a + 1) mod CHECKPOINT_COUNT) \<and>
     0 \<le> checkpoint b \<and> checkpoint b < CHECKPOINT_COUNT \<and>
     (speedOk a \<longrightarrow> speedOk b)"

definition speedRel :: "Kart list \<Rightarrow> Kart list \<Rightarrow> bool" where
  "speedRel ks ks' \<longleftrightarrow>
     length ks' = length ks \<and> (\<forall>m < length ks. sameProgress (ks ! m) (ks' ! m)) \<and>
     ((\<forall>m < length ks. speedOk (ks ! m)) \<longrightarrow> (\<forall>m < length ks. speedOk (ks' ! m)))"

text \<open>
  A race is well formed when its track has the configured number of checkpoints and at least
  one waypoint, and every kart targets one of the checkpoints. The relation \<open>tickRel\<close> says
  what a whole tick may do to the race-progress flags of a kart.
\<close>

definition wellFormed :: "Race \<Rightarrow> bool" where
  "wellFormed g \<longleftrightarrow>
     length (checkpoints (raceTrack g)) = nat CHECKPOINT_COUNT \<and>
     waypoints (raceTrack g) \<noteq> [] \<and>
     (\<forall>k \<in> set (raceKarts g). 0 \<le> checkpoint k \<and> checkpoint k < CHECKPOINT_COUNT)"

definition tickRel :: "Kart \<Rightarrow> Kart \<Rightarrow> bool" where
  "tickRel a b \<longleftrightarrow>
     isPlayer b = isPlayer a \<and>
     (finished a \<longrightarrow> finished b \<and> finishTime b = finishTime a) \<and>
     (checkpoint b = checkpoint a \<or> checkpoint b = (checkpoint a + 1) mod CHECKPOINT_COUNT) \<and>
     0 \<le> checkpoint b \<and> checkpoint b < CHECKPOINT_COUNT"

text \<open>
  The test of the \<^verbatim>\<open>if\<close> in \<^verbatim>\<open>checkCheckpoint\<close> for a kart: the crossing
  event. The relation \<open>loopRel\<close> says what one round of the per-kart loop of the collision
  pass makes of a kart: wall correction, checkpoint check, and possibly a new item.
\<close>

definition crossesCheckpoint :: "Track \<Rightarrow> Kart \<Rightarrow> bool" where
  "crossesCheckpoint t k \<longleftrightarrow>
     (let cp = checkpoints t ! nat (checkpoint k)
      in checkpointHit (Math_hypot (xpos k - cpx cp) (ypos k - cpy cp)) k)"

definition loopRel :: "Track \<Rightarrow> real \<Rightarrow> Kart \<Rightarrow> Kart \<Rightarrow> bool" where
  "loopRel t rt a b \<longleftrightarrow>
     (\<exists>k1. checkCheckpoint t rt (trackBoundary t a) = Inr k1 \<and> b = k1\<lparr>item := item b\<rparr>)"

text \<open>
  A kart is undisturbed by the per-kart loop of the collision pass when it is inside the
  corridor, targets an existing checkpoint and does not cross it; the loop then only
  recomputes its progress score.
\<close>

definition undisturbed :: "Track \<Rightarrow> Kart \<Rightarrow> bool" where
  "undisturbed t k \<longleftrightarrow>
     \<not> getTrackDistance t (xpos k) (ypos k) < innerLimit t \<and>
     \<not> getTrackDistance t (xpos k) (ypos k) > outerLimit t \<and>
     0 \<le> checkpoint k \<and> checkpoint k < int (length (checkpoints t)) \<and>
     \<not> crossesCheckpoint t k"

definition withProgress :: "Track \<Rightarrow> Kart \<Rightarrow> Kart" where
  "withProgress t k =
     k\<lparr>totalProgress := real_of_int (lap k * CHECKPOINT_COUNT + checkpoint k)
          + (1 - Math_hypot (xpos k - cpx (checkpoints t ! nat (checkpoint k)))
                            (ypos k - cpy (checkpoints t ! nat (checkpoint k))) / 200)\<rparr>"

text \<open>
  The number of other karts that the avoidance loop of the AI kart at index \<open>i\<close> finds
  closer than 40 units.
\<close>

definition closeKarts :: "nat \<Rightarrow> Kart list \<Rightarrow> nat" where
  "closeKarts i ks =
     length (filter (\<lambda>jo. fst jo \<noteq> i \<and>
                Math_hypot (xpos (snd jo) - xpos (ks ! i)) (ypos (snd jo) - ypos (ks ! i)) < 40)
             (enumerate 0 ks))"

text \<open>
  The distance that \<^verbatim>\<open>checkCheckpoint\<close> measures for a kart: from the kart to the
  checkpoint it targets when the function is entered.
\<close>

definition targetDistance :: "Track \<Rightarrow> Kart \<Rightarrow> real" where
  "targetDistance t k =
     Math_hypot (xpos k - cpx (checkpoints t ! nat (checkpoint k)))
                (ypos k - cpy (checkpoints t ! nat (checkpoint k)))"

text \<open>The Euclidean distance between two karts, as the kart-to-kart loop computes it.\<close>

definition kartDistance :: "Kart \<Rightarrow> Kart \<Rightarrow> real" where
  "kartDistance a b = Math_hypot (xpos b - xpos a) (ypos b - ypos a)"


section \<open>Example states\<close>

text \<open>
  A race late in its course on the track of the game: the player, on lap 2 and heading for
  checkpoint 1 along the top straight, is at top speed under a boost that is about to run
  out and holds the accelerator; the three AI karts have finished and stand near the last
  checkpoint; the four power-ups wait for their respawn.
\<close>

definition exampleKeys :: Keys where
  "exampleKeys = \<lparr> keyUp = True, keyDown = False, keyLeft = False, keyRight = False,
                   keyDrift = False, keyUseItem = False \<rparr>"

definition boostedPlayer :: Kart where
  "boostedPlayer = (Kart_new 450 80 0 True)
     \<lparr> speed := 250, boosting := True, boostTimer := 0.01,
       lap := 2, checkpoint := 1, lastCheckpoint := 0 \<rparr>"

definition finishedAI :: "real \<Rightarrow> Kart" where
  "finishedAI y = (Kart_new 80 y 0 False)
     \<lparr> speed := 170, lap := 3, checkpoint := 0, lastCheckpoint := 3,
       finished := True, finishTime := 95 \<rparr>"

definition restingPowerUps :: "PowerUp list" where
  "restingPowerUps =
     map (\<lambda>xy. (PowerUp_new (fst xy) (snd xy))\<lparr>active := False, respawnTimer := 3\<rparr>)
       [(626, 456), (174, 456), (174, 144), (626, 144)]"

definition lateRace :: Race where
  "lateRace = \<lparr> raceKeys = exampleKeys, raceTrack = Track_new,
                raceKarts = [boostedPlayer, finishedAI 260, finishedAI 300, finishedAI 340],
                racePowerUps = restingPowerUps, raceTime = 100 \<rparr>"

text \<open>
  A player kart in the middle of a drift to the right with a given boost charge; with
  \<open>exampleKeys\<close> the drift key is released.
\<close>

definition driftingKart :: "real \<Rightarrow> Kart" where
  "driftingKart c = (Kart_new 450 80 0 True)
     \<lparr> speed := 120, drifting := True, driftDirection := 1, driftBoost := c,
       driftAngleOffset := 0.3 \<rparr>"

text \<open>
  Scenario 5 of the specification: an AI kart with progress 1.0 and the player with progress
  1.6, both on the top straight, at a given distance from each other; two more AI karts are
  on the far side of the track.
\<close>

definition chasingKarts :: "real \<Rightarrow> Kart list" where
  "chasingKarts gap =
     [(Kart_new 500 80 0 True)\<lparr>speed := 150, checkpoint := 1, lastCheckpoint := 0, totalProgress := 1.6\<rparr>,
      (Kart_new (500 - gap) 80 0 False)\<lparr>speed := 150, checkpoint := 1, lastCheckpoint := 0, totalProgress := 1.0\<rparr>,
      (Kart_new 400 520 pi False)\<lparr>speed := 150, checkpoint := 3, lastCheckpoint := 2, totalProgress := 2.5\<rparr>,
      (Kart_new 300 520 pi False)\<lparr>speed := 150, checkpoint := 3, lastCheckpoint := 2, totalProgress := 2.8\<rparr>]"



text \<open>
  The player with a fresh shield, off the track beyond the outer limit on the right-hand
  side, heading for checkpoint 2.
\<close>

definition shieldedKart :: Kart where
  "shieldedKart = (Kart_new 816 300 0 True)
     \<lparr> speed := 100, shielded := True, shieldTimer := 5, lap := 1,
       checkpoint := 2, lastCheckpoint := 1 \<rparr>"


text \<open>
  Two karts on the top straight in the first lap: the player stands on checkpoint 0, which it
  has crossed, and heads for checkpoint 1; an AI kart is 60 units before checkpoint 0, which
  it has yet to cross.
\<close>

definition leadingKart :: Kart where
  "leadingKart = (Kart_new 400 80 0 True)\<lparr>speed := 120, checkpoint := 1, lastCheckpoint := 0\<rparr>"

definition trailingKart :: Kart where
  "trailingKart = (Kart_new 340 80 0 False)\<lparr>speed := 120\<rparr>"

definition progressKarts :: "Kart list" where
  "progressKarts = [leadingKart, trailingKart]"

section \<open>Facts about the Math functions\<close>

lemma Math_hypot_nonneg: "0 \<le> Math_hypot a b"
  by (simp add: Math_hypot_def)

lemma Math_hypot_zero_right: "Math_hypot a 0 = \<bar>a\<bar>"
  by (simp add: Math_hypot_def)

lemma Math_hypot_zero_left: "Math_hypot 0 b = \<bar>b\<bar>"
  by (simp add: Math_hypot_def)

lemma sqrt_less_iff_sq: "0 \<le> c \<Longrightarrow> (sqrt v < c) = (v < c * c)"
  by (metis real_sqrt_less_iff abs_of_nonneg real_sqrt_abs2)

lemma sqrt_le_iff_sq: "0 \<le> c \<Longrightarrow> (sqrt v \<le> c) = (v \<le> c * c)"
  by (metis real_sqrt_le_iff abs_of_nonneg real_sqrt_abs2)

lemma Math_hypot_less_iff: "0 \<le> c \<Longrightarrow> (Math_hypot a b < c) = (a * a + b * b < c * c)"
  by (simp add: Math_hypot_def sqrt_less_iff_sq)


section \<open>The corridor limits\<close>

lemma snap_distance:
  assumes "0 < rx" "0 < ry" "0 \<le> td"
  shows "sqrt (((cx + cos a * td * rx - cx) / rx) * ((cx + cos a * td * rx - cx) / rx)
             + ((cy + sin a * td * ry - cy) / ry) * ((cy + sin a * td * ry - cy) / ry)) = td"
proof -
  have x: "((cx + cos a * td * rx - cx) / rx) = cos a * td" using assms by simp
  have y: "((cy + sin a * td * ry - cy) / ry) = sin a * td" using assms by simp
  have "(cos a * td) * (cos a * td) + (sin a * td) * (sin a * td)
        = td * td * (cos a * cos a + sin a * sin a)"
    by (simp only: algebra_simps)
  also have "\<dots> = td * td" by (simp only: sin_cos_squared_add3 mult_1_right)
  finally have "sqrt ((cos a * td) * (cos a * td) + (sin a * td) * (sin a * td)) = \<bar>td\<bar>"
    by simp
  then show ?thesis using assms unfolding x y by simp
qed

lemma limits_order:
  assumes "0 < radiusX t" "0 < radiusY t" "0 \<le> width t / 2 - 15"
    "width t / 2 - 15 \<le> min (radiusX t) (radiusY t)"
  shows "0 \<le> innerLimit t" "innerLimit t \<le> outerLimit t"
proof -
  let ?m = "min (radiusX t) (radiusY t)"
  have m: "0 < ?m" using assms by simp
  have "(width t / 2 - 15) / ?m \<le> 1" using assms m by (simp add: divide_le_eq)
  then show "0 \<le> innerLimit t" by (simp add: innerLimit_def)
  have "0 \<le> (width t / 2 - 15) / ?m" using assms m by simp
  then show "innerLimit t \<le> outerLimit t" by (simp add: innerLimit_def outerLimit_def)
qed

lemma Track_new_simps:
  "centerX Track_new = 400" "centerY Track_new = 300" "radiusX Track_new = 320"
  "radiusY Track_new = 220" "width Track_new = 120"
  by (simp_all add: Track_new_def CONFIG_defs)

lemma Track_new_limits: "innerLimit Track_new = 35 / 44" "outerLimit Track_new = 53 / 44"
  by (simp_all add: innerLimit_def outerLimit_def Track_new_simps)

section \<open>Frame and speed facts of the physics steps\<close>

lemma sameProgress_refl [simp]: "sameProgress a a"
  by (simp add: sameProgress_def)

lemma sameProgress_trans: "sameProgress a b \<Longrightarrow> sameProgress b c \<Longrightarrow> sameProgress a c"
  by (simp add: sameProgress_def)

lemma getMaxSpeed_bounds: "0 < getMaxSpeed k" "getMaxSpeed k \<le> MAX_SPEED + DRIFT_BOOST_SPEED"
  by (simp_all add: getMaxSpeed_def CONFIG_defs)

lemma accelerate_frame: "sameProgress k (accelerate kys dt k)"
  by (simp add: sameProgress_def accelerate_def Let_def)

lemma accelerate_speed:
  "0 \<le> speed (accelerate kys dt k)" "speed (accelerate kys dt k) \<le> getMaxSpeed k"
  using getMaxSpeed_bounds(1) [of k] by (simp_all add: accelerate_def Let_def)

lemma accelerate_flags:
  "boosting (accelerate kys dt k) = boosting k" "slowed (accelerate kys dt k) = slowed k"
  "item (accelerate kys dt k) = item k"
  by (simp_all add: accelerate_def Let_def)

lemma driftMechanics_frame: "sameProgress k (driftMechanics kys dt k)"
  by (simp add: sameProgress_def driftMechanics_def applyBoost_def Let_def)

lemma driftMechanics_speed:
  "0 \<le> speed k \<Longrightarrow> 0 \<le> speed (driftMechanics kys dt k) \<and> speed (driftMechanics kys dt k) \<le> speed k"
  by (simp add: driftMechanics_def applyBoost_def Let_def DRIFT_GRIP_def)

lemma driftMechanics_flags:
  "slowed (driftMechanics kys dt k) = slowed k" "item (driftMechanics kys dt k) = item k"
  by (simp_all add: driftMechanics_def applyBoost_def Let_def)

lemma movePlayer_frame: "sameProgress k (movePlayer dt k)"
  by (simp add: sameProgress_def movePlayer_def Let_def)

lemma movePlayer_fields:
  "speed (movePlayer dt k) = speed k" "item (movePlayer dt k) = item k"
  "boosting (movePlayer dt k) = boosting k" "slowed (movePlayer dt k) = slowed k"
  by (simp_all add: movePlayer_def Let_def)

lemma Kart_update_frame: "sameProgress k (Kart_update dt k)"
  by (simp add: sameProgress_def Kart_update_def Let_def)

lemma Kart_update_speed: "speed (Kart_update dt k) = speed k"
  by (simp add: Kart_update_def Let_def)

lemma length_useItem [simp]: "length (useItem i ks) = length ks"
  by (simp add: useItem_def Let_def split: option.split Item.split)

lemma useItem_other:
  assumes "j < length ks" "j \<noteq> i"
  shows "useItem i ks ! j =
           (if item (ks ! i) = Some Slow \<and> \<not> shielded (ks ! j)
            then (ks ! j)\<lparr>slowed := True, slowTimer := SLOW_DURATION\<rparr> else ks ! j)"
  using assms
  by (simp add: useItem_def Let_def nth_enumerate_eq split: option.split Item.split)

lemma useItem_self:
  assumes "i < length ks"
  shows "useItem i ks ! i =
           (case item (ks ! i) of
              Some Boost \<Rightarrow> (ks ! i)\<lparr>item := None, boosting := True, boostTimer := BOOST_DURATION\<rparr>
            | Some Shield \<Rightarrow> (ks ! i)\<lparr>item := None, shielded := True, shieldTimer := SHIELD_DURATION\<rparr>
            | _ \<Rightarrow> (ks ! i)\<lparr>item := None\<rparr>)"
  using assms
  by (simp add: useItem_def Let_def nth_enumerate_eq split: option.split Item.split)

lemma useItem_nth:
  assumes "j < length ks"
  shows "sameProgress (ks ! j) (useItem i ks ! j)" "speed (useItem i ks ! j) = speed (ks ! j)"
proof -
  show "sameProgress (ks ! j) (useItem i ks ! j)"
  proof (cases "j = i")
    case True
    then show ?thesis using assms
      by (simp add: useItem_self sameProgress_def split: option.split Item.split)
  next
    case False
    then show ?thesis using assms by (simp add: useItem_other sameProgress_def)
  qed
  show "speed (useItem i ks ! j) = speed (ks ! j)"
  proof (cases "j = i")
    case True
    then show ?thesis using assms
      by (simp add: useItem_self split: option.split Item.split)
  next
    case False
    then show ?thesis using assms by (simp add: useItem_other)
  qed
qed


lemma playerMove_facts:
  "sameProgress k (movePlayer dt (driftMechanics kys dt (accelerate kys dt k)))"
  "0 \<le> speed (movePlayer dt (driftMechanics kys dt (accelerate kys dt k)))"
  "speed (movePlayer dt (driftMechanics kys dt (accelerate kys dt k))) \<le> getMaxSpeed k"
  "item (movePlayer dt (driftMechanics kys dt (accelerate kys dt k))) = item k"
proof -
  show "sameProgress k (movePlayer dt (driftMechanics kys dt (accelerate kys dt k)))"
    by (blast intro: sameProgress_trans accelerate_frame driftMechanics_frame movePlayer_frame)
  have d: "0 \<le> speed (driftMechanics kys dt (accelerate kys dt k))
         \<and> speed (driftMechanics kys dt (accelerate kys dt k)) \<le> speed (accelerate kys dt k)"
    by (rule driftMechanics_speed) (rule accelerate_speed)
  show "0 \<le> speed (movePlayer dt (driftMechanics kys dt (accelerate kys dt k)))"
    using d by (simp add: movePlayer_fields)
  show "speed (movePlayer dt (driftMechanics kys dt (accelerate kys dt k))) \<le> getMaxSpeed k"
    using d accelerate_speed(2) [of kys dt k] by (simp add: movePlayer_fields)
  show "item (movePlayer dt (driftMechanics kys dt (accelerate kys dt k))) = item k"
    by (simp add: movePlayer_fields driftMechanics_flags accelerate_flags)
qed

lemma updatePlayerKart_length [simp]:
  "length (snd (updatePlayerKart i dt st)) = length (snd st)"
  by (simp add: updatePlayerKart_def Let_def)

lemma updatePlayerKart_finished:
  "finished (snd st ! i) \<Longrightarrow> updatePlayerKart i dt st = st"
  by (simp add: updatePlayerKart_def Let_def)

lemma updatePlayerKart_other:
  assumes "j < length ks" "j \<noteq> i"
  shows "snd (updatePlayerKart i dt (kys, ks)) ! j = ks ! j
       \<or> snd (updatePlayerKart i dt (kys, ks)) ! j = (ks ! j)\<lparr>slowed := True, slowTimer := SLOW_DURATION\<rparr>"
  using assms by (simp add: updatePlayerKart_def Let_def useItem_other)

lemma updatePlayerKart_self:
  assumes "i < length ks" "\<not> finished (ks ! i)"
  shows "sameProgress (ks ! i) (snd (updatePlayerKart i dt (kys, ks)) ! i)"
    "0 \<le> speed (snd (updatePlayerKart i dt (kys, ks)) ! i)"
    "speed (snd (updatePlayerKart i dt (kys, ks)) ! i) \<le> getMaxSpeed (ks ! i)"
proof -
  define k1 where "k1 = movePlayer dt (driftMechanics kys dt (accelerate kys dt (ks ! i)))"
  note f = playerMove_facts [where k = "ks ! i" and dt = dt and kys = kys, folded k1_def]
  define k2 where "k2 = (if keyUseItem kys \<and> item k1 \<noteq> None then useItem i (ks[i := k1]) ! i else k1)"
  have r: "snd (updatePlayerKart i dt (kys, ks)) ! i = Kart_update dt k2"
    using assms by (auto simp add: updatePlayerKart_def Let_def k1_def k2_def)
  have "sameProgress k1 k2 \<and> speed k2 = speed k1"
    using assms(1) useItem_nth [of i "ks[i := k1]" i] by (simp add: k2_def)
  then have "sameProgress (ks ! i) k2" and s: "speed k2 = speed k1"
    using f(1) by (blast intro: sameProgress_trans)+
  then show "sameProgress (ks ! i) (snd (updatePlayerKart i dt (kys, ks)) ! i)"
    unfolding r by (blast intro: sameProgress_trans Kart_update_frame)
  show "0 \<le> speed (snd (updatePlayerKart i dt (kys, ks)) ! i)"
    unfolding r using f s by (simp add: Kart_update_speed)
  show "speed (snd (updatePlayerKart i dt (kys, ks)) ! i) \<le> getMaxSpeed (ks ! i)"
    unfolding r using f s by (simp add: Kart_update_speed)
qed

lemma steerToWaypoint_shape:
  "steerToWaypoint t dt k = k\<lparr>angle := angle (steerToWaypoint t dt k)\<rparr>"
  by (simp add: steerToWaypoint_def Let_def)

lemma avoidStep_shape:
  "fst (avoidStep i dt jo (k, ts)) = k\<lparr>angle := angle (fst (avoidStep i dt jo (k, ts)))\<rparr>"
  by (simp add: avoidStep_def Let_def)

lemma avoid_fold_shape:
  "fst (fold (avoidStep i dt) js (k, ts)) = k\<lparr>angle := angle (fst (fold (avoidStep i dt) js (k, ts)))\<rparr>"
proof (induction js arbitrary: k ts)
  case Nil
  show ?case by simp
next
  case (Cons jo js)
  obtain k1 t1 where st: "avoidStep i dt jo (k, ts) = (k1, t1)" by (cases "avoidStep i dt jo (k, ts)")
  have k1: "k1 = k\<lparr>angle := angle k1\<rparr>" using avoidStep_shape [of i dt jo k ts] st by simp
  have "fst (fold (avoidStep i dt) js (k1, t1)) = k1\<lparr>angle := angle (fst (fold (avoidStep i dt) js (k1, t1)))\<rparr>"
    by (rule Cons.IH)
  also have "\<dots> = k\<lparr>angle := angle (fst (fold (avoidStep i dt) js (k1, t1)))\<rparr>"
    by (subst k1) simp
  finally show ?case by (simp add: st)
qed

lemma aiPlan_shape:
  "fst (aiPlan i dt t p ks) = (ks ! i)\<lparr>angle := angle (fst (aiPlan i dt t p ks))\<rparr>"
  unfolding aiPlan_def Let_def
  by (subst avoid_fold_shape, subst steerToWaypoint_shape) simp

lemma easeSpeed_frame: "sameProgress k (easeSpeed dt ts k)"
  by (simp add: sameProgress_def easeSpeed_def Let_def)

lemma easeSpeed_speed:
  "0 \<le> speed (easeSpeed dt ts k)" "speed (easeSpeed dt ts k) \<le> getMaxSpeed k"
  using getMaxSpeed_bounds(1) [of k]
  by (simp_all add: easeSpeed_def Let_def getMaxSpeed_def)

lemma easeSpeed_item: "item (easeSpeed dt ts k) = item k"
  by (simp add: easeSpeed_def Let_def)

lemma moveAI_frame: "sameProgress k (moveAI dt k)"
  by (simp add: sameProgress_def moveAI_def Let_def)

lemma moveAI_fields: "speed (moveAI dt k) = speed k" "item (moveAI dt k) = item k"
  by (simp_all add: moveAI_def Let_def)

lemma aiPlan_facts:
  "sameProgress (ks ! i) (fst (aiPlan i dt t p ks))"
  "getMaxSpeed (fst (aiPlan i dt t p ks)) = getMaxSpeed (ks ! i)"
  "item (fst (aiPlan i dt t p ks)) = item (ks ! i)"
proof -
  show "sameProgress (ks ! i) (fst (aiPlan i dt t p ks))"
    by (subst aiPlan_shape) (simp add: sameProgress_def)
  show "getMaxSpeed (fst (aiPlan i dt t p ks)) = getMaxSpeed (ks ! i)"
    by (subst aiPlan_shape) (simp add: getMaxSpeed_def)
  show "item (fst (aiPlan i dt t p ks)) = item (ks ! i)"
    by (subst aiPlan_shape) simp
qed

lemma aiMove_facts:
  "sameProgress (ks ! i) (moveAI dt (easeSpeed dt ts (fst (aiPlan i dt t p ks))))"
  "0 \<le> speed (moveAI dt (easeSpeed dt ts (fst (aiPlan i dt t p ks))))"
  "speed (moveAI dt (easeSpeed dt ts (fst (aiPlan i dt t p ks)))) \<le> getMaxSpeed (ks ! i)"
proof -
  show "sameProgress (ks ! i) (moveAI dt (easeSpeed dt ts (fst (aiPlan i dt t p ks))))"
    by (blast intro: sameProgress_trans aiPlan_facts(1) easeSpeed_frame moveAI_frame)
  show "0 \<le> speed (moveAI dt (easeSpeed dt ts (fst (aiPlan i dt t p ks))))"
    by (simp add: moveAI_fields easeSpeed_speed)
  show "speed (moveAI dt (easeSpeed dt ts (fst (aiPlan i dt t p ks)))) \<le> getMaxSpeed (ks ! i)"
    using easeSpeed_speed(2) [of dt ts "fst (aiPlan i dt t p ks)"]
    by (simp add: moveAI_fields aiPlan_facts)
qed

lemma updateAIKart_finished:
  "finished (ks ! i) \<Longrightarrow> updateAIKart i dt t p r ks = Inr ks"
  by (simp add: updateAIKart_def)

lemma updateAIKart_total:
  "waypoints t \<noteq> [] \<Longrightarrow> \<exists>ks'. updateAIKart i dt t p r ks = Inr ks'"
  by (simp add: updateAIKart_def Let_def)

lemma updateAIKart_length:
  "updateAIKart i dt t p r ks = Inr ks' \<Longrightarrow> length ks' = length ks"
  by (auto simp add: updateAIKart_def Let_def split: if_splits)

lemma updateAIKart_other:
  assumes "updateAIKart i dt t p r ks = Inr ks'" "j < length ks" "j \<noteq> i"
  shows "ks' ! j = ks ! j \<or> ks' ! j = (ks ! j)\<lparr>slowed := True, slowTimer := SLOW_DURATION\<rparr>"
proof (cases "finished (ks ! i)")
  case True
  then show ?thesis using assms(1) by (simp add: updateAIKart_finished)
next
  case False
  define k1 where "k1 = moveAI dt (easeSpeed dt (snd (aiPlan i dt t p ks)) (fst (aiPlan i dt t p ks)))"
  define ks2 where "ks2 = (if item k1 \<noteq> None \<and> r < 0.01 then useItem i (ks[i := k1]) else ks[i := k1])"
  have "ks' = ks2[i := Kart_update dt (ks2 ! i)]"
    using assms(1) False unfolding updateAIKart_def aiTargetSpeed_def Let_def k1_def ks2_def
    by (auto split: if_splits)
  then have "ks' ! j = ks2 ! j" using assms(3) by simp
  moreover have "ks2 ! j = ks ! j \<or> ks2 ! j = (ks ! j)\<lparr>slowed := True, slowTimer := SLOW_DURATION\<rparr>"
    using assms(2,3) by (simp add: ks2_def useItem_other)
  ultimately show ?thesis by simp
qed

lemma updateAIKart_self:
  assumes "updateAIKart i dt t p r ks = Inr ks'" "i < length ks" "\<not> finished (ks ! i)"
  shows "sameProgress (ks ! i) (ks' ! i)" "0 \<le> speed (ks' ! i)" "speed (ks' ! i) \<le> getMaxSpeed (ks ! i)"
proof -
  define k1 where "k1 = moveAI dt (easeSpeed dt (snd (aiPlan i dt t p ks)) (fst (aiPlan i dt t p ks)))"
  note f = aiMove_facts [where ks = ks and i = i and dt = dt and t = t and p = p
      and ts = "snd (aiPlan i dt t p ks)", folded k1_def]
  define k2 where "k2 = (if item k1 \<noteq> None \<and> r < 0.01 then useItem i (ks[i := k1]) ! i else k1)"
  define ks2 where "ks2 = (if item k1 \<noteq> None \<and> r < 0.01 then useItem i (ks[i := k1]) else ks[i := k1])"
  have "ks' = ks2[i := Kart_update dt (ks2 ! i)]"
    using assms(1,3) unfolding updateAIKart_def aiTargetSpeed_def Let_def k1_def ks2_def
    by (auto split: if_splits)
  moreover have "ks2 ! i = k2" using assms(2) by (simp add: ks2_def k2_def)
  moreover have "length ks2 = length ks" by (simp add: ks2_def)
  ultimately have r: "ks' ! i = Kart_update dt k2"
    using assms(2) by simp
  have "sameProgress k1 k2 \<and> speed k2 = speed k1"
    using assms(2) useItem_nth [of i "ks[i := k1]" i] by (simp add: k2_def)
  then have "sameProgress (ks ! i) k2" and s: "speed k2 = speed k1"
    using f(1) by (blast intro: sameProgress_trans)+
  then show "sameProgress (ks ! i) (ks' ! i)"
    unfolding r by (blast intro: sameProgress_trans Kart_update_frame)
  show "0 \<le> speed (ks' ! i)"
    unfolding r using f s by (simp add: Kart_update_speed)
  show "speed (ks' ! i) \<le> getMaxSpeed (ks ! i)"
    unfolding r using f s by (simp add: Kart_update_speed)
qed

lemma physRel_refl [simp]: "physRel a a"
  by (simp add: physRel_def)

lemma physRel_trans: "physRel a b \<Longrightarrow> physRel b c \<Longrightarrow> physRel a c"
  by (auto simp add: physRel_def intro: sameProgress_trans)

lemma physRel_slowed: "physRel a (a\<lparr>slowed := True, slowTimer := v\<rparr>)"
  by (simp add: physRel_def sameProgress_def speedOk_def)

lemma speedOk_of_max: "0 \<le> speed b \<Longrightarrow> speed b \<le> getMaxSpeed a \<Longrightarrow> speedOk b"
  using getMaxSpeed_bounds(2) [of a] by (simp add: speedOk_def)

lemma updatePlayerKart_physRel:
  assumes "i < length ks" "j < length ks"
  shows "physRel (ks ! j) (snd (updatePlayerKart i dt (kys, ks)) ! j)"
proof (cases "j = i")
  case True
  show ?thesis
  proof (cases "finished (ks ! i)")
    case True
    then show ?thesis by (simp add: updatePlayerKart_finished)
  next
    case False
    then show ?thesis
      using updatePlayerKart_self [OF assms(1) False, of dt kys] \<open>j = i\<close>
      by (auto simp add: physRel_def intro: speedOk_of_max)
  qed
next
  case False
  then show ?thesis
    using updatePlayerKart_other [OF assms(2) False, of dt kys]
    by (auto simp add: physRel_slowed)
qed

lemma updateAIKart_physRel:
  assumes "updateAIKart i dt t p r ks = Inr ks'" "i < length ks" "j < length ks"
  shows "physRel (ks ! j) (ks' ! j)"
proof (cases "j = i")
  case True
  show ?thesis
  proof (cases "finished (ks ! i)")
    case True
    then show ?thesis using assms(1) by (simp add: updateAIKart_finished)
  next
    case False
    then show ?thesis
      using updateAIKart_self [OF assms(1,2) False] \<open>j = i\<close>
      by (auto simp add: physRel_def intro: speedOk_of_max)
  qed
next
  case False
  then show ?thesis
    using updateAIKart_other [OF assms(1,3) False]
    by (auto simp add: physRel_slowed)
qed

lemma updateKarts_rel:
  assumes "waypoints t \<noteq> []" "\<forall>i \<in> set js. i < length (snd st)"
  shows "\<exists>st'. updateKarts dt t p ri js st = Inr st' \<and> length (snd st') = length (snd st)
           \<and> (\<forall>j < length (snd st). physRel (snd st ! j) (snd st' ! j))"
  using assms(2)
proof (induction js arbitrary: st)
  case Nil
  show ?case by simp
next
  case (Cons i js)
  obtain kys ks where st: "st = (kys, ks)" by (cases st)
  have i: "i < length ks" using Cons.prems st by simp
  show ?case
  proof (cases "isPlayer (ks ! i)")
    case True
    let ?st1 = "updatePlayerKart i dt (kys, ks)"
    have l: "length (snd ?st1) = length ks" by simp
    have "\<forall>i \<in> set js. i < length (snd ?st1)" using Cons.prems st by simp
    from Cons.IH [OF this] obtain st' where
      r: "updateKarts dt t p ri js ?st1 = Inr st'" "length (snd st') = length (snd ?st1)"
         "\<forall>j < length (snd ?st1). physRel (snd ?st1 ! j) (snd st' ! j)" by blast
    have "\<forall>j < length ks. physRel (ks ! j) (snd st' ! j)"
    proof (intro allI impI)
      fix j assume j: "j < length ks"
      have a: "physRel (ks ! j) (snd ?st1 ! j)" by (rule updatePlayerKart_physRel [OF i j])
      have b: "physRel (snd ?st1 ! j) (snd st' ! j)" using r(3) l j by simp
      show "physRel (ks ! j) (snd st' ! j)" by (rule physRel_trans [OF a b])
    qed
    then show ?thesis using True r st by simp
  next
    case False
    obtain ks1 where a: "updateAIKart i dt t p (ri i) ks = Inr ks1"
      using updateAIKart_total [OF assms(1)] by blast
    have l: "length ks1 = length ks" using a by (rule updateAIKart_length)
    have "\<forall>i \<in> set js. i < length (snd (kys, ks1))" using Cons.prems st l by simp
    from Cons.IH [OF this] obtain st' where
      r: "updateKarts dt t p ri js (kys, ks1) = Inr st'" "length (snd st') = length ks1"
         "\<forall>j < length ks1. physRel (ks1 ! j) (snd st' ! j)" by auto
    have "\<forall>j < length ks. physRel (ks ! j) (snd st' ! j)"
    proof (intro allI impI)
      fix j assume j: "j < length ks"
      have a: "physRel (ks ! j) (ks1 ! j)" by (rule updateAIKart_physRel [OF a i j])
      have b: "physRel (ks1 ! j) (snd st' ! j)" using r(3) l j by simp
      show "physRel (ks ! j) (snd st' ! j)" by (rule physRel_trans [OF a b])
    qed
    then show ?thesis using False r st a l by simp
  qed
qed

section \<open>Facts about the collision pass\<close>

lemma js_rem_nonneg: "0 \<le> a \<Longrightarrow> 0 < b \<Longrightarrow> js_rem a b = a mod b"
  by (cases "a = 0") (simp_all add: js_rem_def)

lemma trackBoundary_frame: "sameProgress k (trackBoundary t k)"
  by (simp add: sameProgress_def trackBoundary_def Let_def)

lemma trackBoundary_speedOk: "speedOk k \<Longrightarrow> speedOk (trackBoundary t k)"
  by (simp add: speedOk_def trackBoundary_def Let_def CONFIG_defs)

lemma advanceCheckpoint_facts:
  assumes "0 \<le> checkpoint k"
  shows "checkpoint (advanceCheckpoint rt k) = (checkpoint k + 1) mod CHECKPOINT_COUNT"
    "lastCheckpoint (advanceCheckpoint rt k) = checkpoint k"
    "finished k \<Longrightarrow> finished (advanceCheckpoint rt k) \<and> finishTime (advanceCheckpoint rt k) = finishTime k"
    "speed (advanceCheckpoint rt k) = speed k" "isPlayer (advanceCheckpoint rt k) = isPlayer k"
    "xpos (advanceCheckpoint rt k) = xpos k" "ypos (advanceCheckpoint rt k) = ypos k"
  using assms by (simp_all add: advanceCheckpoint_def Let_def js_rem_nonneg CHECKPOINT_COUNT_def)

lemma checkCheckpoint_total:
  "0 \<le> checkpoint k \<Longrightarrow> checkpoint k < int (length (checkpoints t))
     \<Longrightarrow> \<exists>k'. checkCheckpoint t rt k = Inr k'"
  by (simp add: checkCheckpoint_def Let_def)

lemma checkCheckpoint_collRel:
  assumes "checkCheckpoint t rt k = Inr k'" "length (checkpoints t) = nat CHECKPOINT_COUNT"
  shows "isPlayer k' = isPlayer k"
    "finished k \<Longrightarrow> finished k' \<and> finishTime k' = finishTime k"
    "checkpoint k' = checkpoint k \<or> checkpoint k' = (checkpoint k + 1) mod CHECKPOINT_COUNT"
    "0 \<le> checkpoint k' \<and> checkpoint k' < CHECKPOINT_COUNT"
    "speed k' = speed k"
proof -
  have c: "0 \<le> checkpoint k" "checkpoint k < CHECKPOINT_COUNT"
    using assms by (auto simp add: checkCheckpoint_def CHECKPOINT_COUNT_def split: if_splits)
  define cp where "cp = checkpoints t ! nat (checkpoint k)"
  define d where "d = Math_hypot (xpos k - cpx cp) (ypos k - cpy cp)"
  define k1 where "k1 = (if checkpointHit d k then advanceCheckpoint rt k else k)"
  have k': "k' = k1\<lparr>totalProgress := real_of_int (lap k1 * CHECKPOINT_COUNT + checkpoint k1)
                   + (1 - Math_hypot (xpos k1 - cpx cp) (ypos k1 - cpy cp) / 200)\<rparr>"
    using assms c by (auto simp add: checkCheckpoint_def Let_def cp_def d_def k1_def split: if_splits)
  note f = advanceCheckpoint_facts [OF c(1), of rt]
  show "isPlayer k' = isPlayer k" by (simp add: k' k1_def f)
  show "finished k \<Longrightarrow> finished k' \<and> finishTime k' = finishTime k"
    using f(3) by (simp add: k' k1_def)
  show "checkpoint k' = checkpoint k \<or> checkpoint k' = (checkpoint k + 1) mod CHECKPOINT_COUNT"
    by (simp add: k' k1_def f)
  show "0 \<le> checkpoint k' \<and> checkpoint k' < CHECKPOINT_COUNT"
    using c by (simp add: k' k1_def f CHECKPOINT_COUNT_def)
  show "speed k' = speed k" by (simp add: k' k1_def f)
qed

lemma pickupLoop_shape:
  "fst (pickupLoop rs n ps k) = k\<lparr>item := item (fst (pickupLoop rs n ps k))\<rparr>"
proof (induction ps arbitrary: n k)
  case Nil
  show ?case by simp
next
  case (Cons p ps)
  show ?case
  proof (cases "\<not> active p \<or> item k \<noteq> None \<or>
         \<not> Math_hypot (pux p - xpos k) (puy p - ypos k) < puSize p + 10")
    case True
    then show ?thesis using Cons.IH [of "n + 1" k] by (simp add: Let_def)
  next
    case False
    let ?k1 = "k\<lparr>item := snd (collect (rs n) p)\<rparr>"
    have "fst (pickupLoop rs (n + 1) ps ?k1) = ?k1\<lparr>item := item (fst (pickupLoop rs (n + 1) ps ?k1))\<rparr>"
      by (rule Cons.IH)
    then have "fst (pickupLoop rs (n + 1) ps ?k1) = k\<lparr>item := item (fst (pickupLoop rs (n + 1) ps ?k1))\<rparr>"
      by simp
    then show ?thesis using False by (simp add: Let_def)
  qed
qed

lemma collRel_step:
  assumes "checkCheckpoint t rt (trackBoundary t k) = Inr k1"
    "length (checkpoints t) = nat CHECKPOINT_COUNT"
  shows "collRel k (fst (pickupLoop rs n ps k1))"
proof -
  note c = checkCheckpoint_collRel [OF assms]
  have tb: "sameProgress k (trackBoundary t k)" by (rule trackBoundary_frame)
  have "collRel k k1"
    using c tb trackBoundary_speedOk [of k t]
    by (auto simp add: collRel_def sameProgress_def speedOk_def)
  moreover have "fst (pickupLoop rs n ps k1) = k1\<lparr>item := item (fst (pickupLoop rs n ps k1))\<rparr>"
    by (rule pickupLoop_shape)
  moreover have "collRel k (k1\<lparr>item := v\<rparr>)" if "collRel k k1" for v
    using that by (simp add: collRel_def speedOk_def)
  ultimately show ?thesis by metis
qed


lemma kartLoop_rel:
  assumes "length (checkpoints t) = nat CHECKPOINT_COUNT"
    "\<forall>k \<in> set ks. 0 \<le> checkpoint k \<and> checkpoint k < CHECKPOINT_COUNT"
  shows "\<exists>ks' ps'. kartLoop t rt rs n ks ps = Inr (ks', ps') \<and> list_all2 collRel ks ks'"
  using assms(2)
proof (induction ks arbitrary: n ps)
  case Nil
  show ?case by simp
next
  case (Cons k ks)
  have "sameProgress k (trackBoundary t k)" by (rule trackBoundary_frame)
  then have "0 \<le> checkpoint (trackBoundary t k)"
    "checkpoint (trackBoundary t k) < int (length (checkpoints t))"
    using Cons.prems assms(1) by (simp_all add: sameProgress_def CHECKPOINT_COUNT_def)
  then obtain k1 where k1: "checkCheckpoint t rt (trackBoundary t k) = Inr k1"
    using checkCheckpoint_total by blast
  let ?picked = "pickupLoop (rs n) 0 ps k1"
  have c: "collRel k (fst ?picked)" by (rule collRel_step [OF k1 assms(1)])
  have "\<forall>k \<in> set ks. 0 \<le> checkpoint k \<and> checkpoint k < CHECKPOINT_COUNT"
    using Cons.prems by simp
  from Cons.IH [OF this, of "n + 1" "snd ?picked"] obtain ks' ps' where
    r: "kartLoop t rt rs (n + 1) ks (snd ?picked) = Inr (ks', ps')" "list_all2 collRel ks ks'"
    by blast
  show ?case using k1 r c by (simp add: Let_def)
qed

lemma bump_length [simp]: "length (bump ij ks) = length ks"
  by (simp add: bump_def Let_def)

lemma bump_nth:
  assumes "m < length ks"
  shows "sameProgress (ks ! m) (bump ij ks ! m)"
  using assms
  by (cases "m = snd ij"; cases "m = fst ij")
     (simp_all add: bump_def Let_def sameProgress_def)

lemma transfer_bounds:
  fixes a b c :: real
  assumes "0 \<le> a" "a \<le> c" "0 \<le> b" "b \<le> c"
  shows "0 \<le> a - (a - b) * 0.3" "a - (a - b) * 0.3 \<le> c"
    "0 \<le> b + (a - b) * 0.3" "b + (a - b) * 0.3 \<le> c"
  using assms by argo+

lemma bump_speedOk:
  assumes "\<forall>m < length ks. speedOk (ks ! m)" "fst ij < length ks" "snd ij < length ks"
    "m < length ks"
  shows "speedOk (bump ij ks ! m)"
proof -
  have a: "0 \<le> speed (ks ! fst ij)" "speed (ks ! fst ij) \<le> MAX_SPEED + DRIFT_BOOST_SPEED"
    "0 \<le> speed (ks ! snd ij)" "speed (ks ! snd ij) \<le> MAX_SPEED + DRIFT_BOOST_SPEED"
    and m: "speedOk (ks ! m)"
    using assms by (simp_all add: speedOk_def)
  note t = transfer_bounds [OF a]
  show ?thesis
    using t m assms(4)
    by (cases "m = snd ij"; cases "m = fst ij")
       (simp_all add: bump_def Let_def speedOk_def)
qed

lemma speedRel_refl [simp]: "speedRel ks ks"
  by (simp add: speedRel_def)

lemma speedRel_trans: "speedRel a b \<Longrightarrow> speedRel b c \<Longrightarrow> speedRel a c"
  unfolding speedRel_def using sameProgress_trans by (metis (no_types, lifting))

lemma bump_speedRel:
  "fst ij < length ks \<Longrightarrow> snd ij < length ks \<Longrightarrow> speedRel ks (bump ij ks)"
  by (simp add: speedRel_def bump_nth bump_speedOk)

lemma fold_bump_speedRel:
  "\<forall>q \<in> set ps. fst q < length ks \<and> snd q < length ks \<Longrightarrow> speedRel ks (fold bump ps ks)"
proof (induction ps arbitrary: ks)
  case Nil
  show ?case by simp
next
  case (Cons ij ps)
  have a: "speedRel ks (bump ij ks)" using Cons.prems by (simp add: bump_speedRel)
  have "\<forall>q \<in> set ps. fst q < length (bump ij ks) \<and> snd q < length (bump ij ks)"
    using Cons.prems by simp
  then have "speedRel (bump ij ks) (fold bump ps (bump ij ks))" by (rule Cons.IH)
  then show ?case using a by (auto intro: speedRel_trans)
qed

lemma kartPairs_range: "(i, j) \<in> set (kartPairs n) \<Longrightarrow> i < j \<and> j < n"
  by (auto simp add: kartPairs_def)

lemma kartCollisions_speedRel: "speedRel ks (kartCollisions ks)"
  unfolding kartCollisions_def
  by (rule fold_bump_speedRel) (auto dest: kartPairs_range)

section \<open>Facts about ranking and the whole tick\<close>

lemma positions_fold_shape:
  "length (fold setPosition xs ks) = length ks
   \<and> (\<forall>j < length ks.
        fold setPosition xs ks ! j = (ks ! j)\<lparr>position := position (fold setPosition xs ks ! j)\<rparr>)"
proof (induction xs arbitrary: ks)
  case Nil
  show ?case by simp
next
  case (Cons x xs)
  let ?ks1 = "setPosition x ks"
  have l: "length ?ks1 = length ks" by (simp add: setPosition_def)
  have s: "\<forall>j < length ks. ?ks1 ! j = (ks ! j)\<lparr>position := position (?ks1 ! j)\<rparr>"
  proof (intro allI impI)
    fix j assume j: "j < length ks"
    show "?ks1 ! j = (ks ! j)\<lparr>position := position (?ks1 ! j)\<rparr>"
      using j by (cases "j = snd x") (simp_all add: setPosition_def)
  qed
  note ih = Cons.IH [of ?ks1]
  have "\<forall>j < length ks. fold setPosition xs ?ks1 ! j
          = (ks ! j)\<lparr>position := position (fold setPosition xs ?ks1 ! j)\<rparr>"
  proof (intro allI impI)
    fix j assume j: "j < length ks"
    have "fold setPosition xs ?ks1 ! j = (?ks1 ! j)\<lparr>position := position (fold setPosition xs ?ks1 ! j)\<rparr>"
      using ih j l by simp
    also have "\<dots> = ((ks ! j)\<lparr>position := position (?ks1 ! j)\<rparr>)\<lparr>position := position (fold setPosition xs ?ks1 ! j)\<rparr>"
      using s j by simp
    finally show "fold setPosition xs ?ks1 ! j = (ks ! j)\<lparr>position := position (fold setPosition xs ?ks1 ! j)\<rparr>"
      by simp
  qed
  then show ?case using ih l by simp
qed

lemma calculatePositions_length [simp]: "length (calculatePositions ks) = length ks"
  by (simp add: calculatePositions_def Let_def positions_fold_shape)

lemma calculatePositions_nth:
  "j < length ks \<Longrightarrow>
     calculatePositions ks ! j = (ks ! j)\<lparr>position := position (calculatePositions ks ! j)\<rparr>"
  unfolding calculatePositions_def Let_def using positions_fold_shape by blast

lemma calculatePositions_facts:
  assumes "j < length ks"
  shows "sameProgress (ks ! j) (calculatePositions ks ! j)"
    "speed (calculatePositions ks ! j) = speed (ks ! j)"
    "getMaxSpeed (calculatePositions ks ! j) = getMaxSpeed (ks ! j)"
    "xpos (calculatePositions ks ! j) = xpos (ks ! j)"
    "ypos (calculatePositions ks ! j) = ypos (ks ! j)"
proof -
  note e = calculatePositions_nth [OF assms]
  show "sameProgress (ks ! j) (calculatePositions ks ! j)"
    by (subst e) (simp add: sameProgress_def)
  show "speed (calculatePositions ks ! j) = speed (ks ! j)" by (subst e) simp
  show "getMaxSpeed (calculatePositions ks ! j) = getMaxSpeed (ks ! j)"
    by (subst e) (simp add: getMaxSpeed_def)
  show "xpos (calculatePositions ks ! j) = xpos (ks ! j)" by (subst e) simp
  show "ypos (calculatePositions ks ! j) = ypos (ks ! j)" by (subst e) simp
qed

lemma handleCollisions_rel:
  assumes "length (checkpoints t) = nat CHECKPOINT_COUNT"
    "\<forall>k \<in> set ks. 0 \<le> checkpoint k \<and> checkpoint k < CHECKPOINT_COUNT"
  shows "\<exists>ks' ps'. handleCollisions t rt rs ks ps = Inr (ks', ps') \<and> length ks' = length ks
          \<and> (\<forall>j < length ks. tickRel (ks ! j) (ks' ! j))
          \<and> ((\<forall>j < length ks. speedOk (ks ! j)) \<longrightarrow> (\<forall>j < length ks. speedOk (ks' ! j)))"
proof -
  obtain ks1 ps1 where k: "kartLoop t rt rs 0 ks ps = Inr (ks1, ps1)" and r: "list_all2 collRel ks ks1"
    using kartLoop_rel [OF assms] by blast
  have l1: "length ks1 = length ks" using r by (simp add: list_all2_lengthD)
  have c: "\<forall>j < length ks. collRel (ks ! j) (ks1 ! j)" using r by (simp add: list_all2_conv_all_nth)
  note s = kartCollisions_speedRel [of ks1]
  have h: "handleCollisions t rt rs ks ps = Inr (kartCollisions ks1, ps1)"
    by (simp add: handleCollisions_def k)
  have l2: "length (kartCollisions ks1) = length ks" using s l1 by (simp add: speedRel_def)
  have "\<forall>j < length ks. tickRel (ks ! j) (kartCollisions ks1 ! j)"
  proof (intro allI impI)
    fix j assume j: "j < length ks"
    have "collRel (ks ! j) (ks1 ! j)" using c j by simp
    moreover have "sameProgress (ks1 ! j) (kartCollisions ks1 ! j)"
      using s j l1 by (simp add: speedRel_def)
    ultimately show "tickRel (ks ! j) (kartCollisions ks1 ! j)"
      by (simp add: tickRel_def collRel_def sameProgress_def)
  qed
  moreover have "(\<forall>j < length ks. speedOk (ks ! j)) \<longrightarrow> (\<forall>j < length ks. speedOk (kartCollisions ks1 ! j))"
  proof
    assume a: "\<forall>j < length ks. speedOk (ks ! j)"
    have "\<forall>j < length ks1. speedOk (ks1 ! j)" using a c l1 by (simp add: collRel_def)
    then show "\<forall>j < length ks. speedOk (kartCollisions ks1 ! j)"
      using s l1 by (simp add: speedRel_def)
  qed
  ultimately show ?thesis using h l2 by simp
qed


lemma raceTick_rel:
  assumes "wellFormed g"
  shows "\<exists>g'. raceTick dt ri rs g = Inr g' \<and> wellFormed g'
          \<and> length (raceKarts g') = length (raceKarts g)
          \<and> (\<forall>j < length (raceKarts g). tickRel (raceKarts g ! j) (raceKarts g' ! j))
          \<and> ((\<forall>j < length (raceKarts g). speedOk (raceKarts g ! j))
                \<longrightarrow> (\<forall>j < length (raceKarts g). speedOk (raceKarts g' ! j)))"
proof -
  let ?ks = "raceKarts g" and ?t = "raceTrack g"
  have wf: "length (checkpoints ?t) = nat CHECKPOINT_COUNT" "waypoints ?t \<noteq> []"
    "\<forall>k \<in> set ?ks. 0 \<le> checkpoint k \<and> checkpoint k < CHECKPOINT_COUNT"
    using assms by (simp_all add: wellFormed_def)
  have "\<forall>i \<in> set [0 ..< length ?ks]. i < length (snd (raceKeys g, ?ks))" by simp
  from updateKarts_rel [OF wf(2) this, of dt "findPlayer ?ks" ri]
  obtain st where u: "updateKarts dt ?t (findPlayer ?ks) ri [0 ..< length ?ks] (raceKeys g, ?ks) = Inr st"
    and l1: "length (snd st) = length ?ks"
    and p: "\<forall>j < length ?ks. physRel (?ks ! j) (snd st ! j)"
    by auto
  have c1: "\<forall>k \<in> set (snd st). 0 \<le> checkpoint k \<and> checkpoint k < CHECKPOINT_COUNT"
  proof
    fix k assume "k \<in> set (snd st)"
    then obtain j where j: "j < length (snd st)" "k = snd st ! j" by (auto simp add: in_set_conv_nth)
    then have "physRel (?ks ! j) k" and "?ks ! j \<in> set ?ks" using p l1 by simp_all
    then show "0 \<le> checkpoint k \<and> checkpoint k < CHECKPOINT_COUNT"
      using wf(3) by (simp add: physRel_def sameProgress_def)
  qed
  from handleCollisions_rel [OF wf(1) c1, of "raceTime g + dt" rs "racePowerUps g"]
  obtain ks2 ps2 where h: "handleCollisions ?t (raceTime g + dt) rs (snd st) (racePowerUps g) = Inr (ks2, ps2)"
    and l2: "length ks2 = length (snd st)"
    and t: "\<forall>j < length (snd st). tickRel (snd st ! j) (ks2 ! j)"
    and s: "(\<forall>j < length (snd st). speedOk (snd st ! j)) \<longrightarrow> (\<forall>j < length (snd st). speedOk (ks2 ! j))"
    by blast
  define g' where "g' = g\<lparr>raceKeys := fst st, raceKarts := calculatePositions ks2,
      racePowerUps := map (PowerUp_update dt) ps2, raceTime := raceTime g + dt\<rparr>"
  have r: "raceTick dt ri rs g = Inr g'"
    by (simp add: raceTick_def Let_def u h g'_def)
  have l3: "length (raceKarts g') = length ?ks" by (simp add: g'_def l1 l2)
  have rel: "\<forall>j < length ?ks. tickRel (?ks ! j) (raceKarts g' ! j)"
  proof (intro allI impI)
    fix j assume j: "j < length ?ks"
    have a: "sameProgress (?ks ! j) (snd st ! j)" using p j by (simp add: physRel_def)
    have b: "tickRel (snd st ! j) (ks2 ! j)" using t j l1 by simp
    have c: "sameProgress (ks2 ! j) (calculatePositions ks2 ! j)"
      using j l1 l2 by (simp add: calculatePositions_facts)
    show "tickRel (?ks ! j) (raceKarts g' ! j)"
      using a b c by (simp add: g'_def tickRel_def sameProgress_def)
  qed
  have sp: "(\<forall>j < length ?ks. speedOk (?ks ! j)) \<longrightarrow> (\<forall>j < length ?ks. speedOk (raceKarts g' ! j))"
  proof (intro impI allI)
    fix j assume a: "\<forall>j < length ?ks. speedOk (?ks ! j)" and j: "j < length ?ks"
    have "\<forall>j < length (snd st). speedOk (snd st ! j)" using a p l1 by (simp add: physRel_def)
    then have "speedOk (ks2 ! j)" using s j l1 by simp
    then show "speedOk (raceKarts g' ! j)"
      using j l1 l2 by (simp add: g'_def speedOk_def calculatePositions_facts)
  qed
  have "wellFormed g'"
    unfolding wellFormed_def
  proof (intro conjI ballI)
    show "length (checkpoints (raceTrack g')) = nat CHECKPOINT_COUNT" using wf by (simp add: g'_def)
    show "waypoints (raceTrack g') \<noteq> []" using wf by (simp add: g'_def)
    fix k assume "k \<in> set (raceKarts g')"
    then obtain j where j: "j < length (raceKarts g')" "k = raceKarts g' ! j"
      by (auto simp add: in_set_conv_nth)
    then have "tickRel (?ks ! j) k" using rel l3 by simp
    then show "0 \<le> checkpoint k" "checkpoint k < CHECKPOINT_COUNT" by (simp_all add: tickRel_def)
  qed
  then show ?thesis using r l3 rel sp by blast
qed

section \<open>Runs of the race and the example states\<close>

lemma raceRun_rel:
  assumes "wellFormed g"
  shows "\<exists>g'. raceRun fs g = Inr g' \<and> wellFormed g'
          \<and> length (raceKarts g') = length (raceKarts g)
          \<and> (\<forall>j < length (raceKarts g).
                 finished (raceKarts g ! j) \<longrightarrow>
                   finished (raceKarts g' ! j) \<and> finishTime (raceKarts g' ! j) = finishTime (raceKarts g ! j))
          \<and> ((\<forall>j < length (raceKarts g). speedOk (raceKarts g ! j))
                \<longrightarrow> (\<forall>j < length (raceKarts g). speedOk (raceKarts g' ! j)))"
  using assms
proof (induction fs arbitrary: g)
  case Nil
  then show ?case by simp
next
  case (Cons f fs)
  let ?g0 = "g\<lparr>raceKeys := fst f\<rparr>"
  have wf0: "wellFormed ?g0" using Cons.prems by (simp add: wellFormed_def)
  from raceTick_rel [OF wf0, of "fst (snd f)" "fst (snd (snd f))" "snd (snd (snd f))"]
  obtain g1 where t: "raceTick (fst (snd f)) (fst (snd (snd f))) (snd (snd (snd f))) ?g0 = Inr g1"
    and wf1: "wellFormed g1" and l1: "length (raceKarts g1) = length (raceKarts g)"
    and r1: "\<forall>j < length (raceKarts g). tickRel (raceKarts g ! j) (raceKarts g1 ! j)"
    and s1: "(\<forall>j < length (raceKarts g). speedOk (raceKarts g ! j))
                \<longrightarrow> (\<forall>j < length (raceKarts g). speedOk (raceKarts g1 ! j))"
    by auto
  from Cons.IH [OF wf1] obtain g' where
    r: "raceRun fs g1 = Inr g'" and wf': "wellFormed g'"
    and l2: "length (raceKarts g') = length (raceKarts g1)"
    and r2: "\<forall>j < length (raceKarts g1). finished (raceKarts g1 ! j) \<longrightarrow>
                   finished (raceKarts g' ! j) \<and> finishTime (raceKarts g' ! j) = finishTime (raceKarts g1 ! j)"
    and s2: "(\<forall>j < length (raceKarts g1). speedOk (raceKarts g1 ! j))
                \<longrightarrow> (\<forall>j < length (raceKarts g1). speedOk (raceKarts g' ! j))"
    by blast
  have "raceRun (f # fs) g = Inr g'" using t r by simp
  moreover have "\<forall>j < length (raceKarts g). finished (raceKarts g ! j) \<longrightarrow>
       finished (raceKarts g' ! j) \<and> finishTime (raceKarts g' ! j) = finishTime (raceKarts g ! j)"
    using r1 r2 l1 by (simp add: tickRel_def)
  moreover have "(\<forall>j < length (raceKarts g). speedOk (raceKarts g ! j))
                \<longrightarrow> (\<forall>j < length (raceKarts g). speedOk (raceKarts g' ! j))"
    using s1 s2 l1 by simp
  ultimately show ?case using wf' l1 l2 by simp
qed

lemma checkpoints_Track_new:
  "checkpoints Track_new =
     [\<lparr>cpx = 400, cpy = 80, cpangle = - (pi / 2), cpindex = 0\<rparr>,
      \<lparr>cpx = 720, cpy = 300, cpangle = 0, cpindex = 1\<rparr>,
      \<lparr>cpx = 400, cpy = 520, cpangle = pi / 2, cpindex = 2\<rparr>,
      \<lparr>cpx = 80, cpy = 300, cpangle = pi, cpindex = 3\<rparr>]"
proof -
  have "[0 ..< nat CHECKPOINT_COUNT] = [0, 1, 2, 3]"
    by (simp add: CHECKPOINT_COUNT_def upt_rec)
  then show ?thesis
    by (simp add: Track_new_def mkCheckpoint_def Let_def CONFIG_defs cos_minus sin_minus)
qed

lemma Track_new_wf:
  "length (checkpoints Track_new) = nat CHECKPOINT_COUNT" "waypoints Track_new \<noteq> []"
  by (simp_all add: Track_new_def)

lemma lateRace_wf: "wellFormed lateRace"
  by (simp add: wellFormed_def lateRace_def Track_new_wf boostedPlayer_def finishedAI_def
      Kart_new_def CHECKPOINT_COUNT_def)

section \<open>The checkpoint check inside the collision pass\<close>

lemma kartLoop_loopRel:
  assumes "kartLoop t rt rs n ks ps = Inr (ks', ps')"
  shows "list_all2 (loopRel t rt) ks ks'"
  using assms
proof (induction ks arbitrary: n ps ks' ps')
  case Nil
  then show ?case by simp
next
  case (Cons k ks)
  from Cons.prems obtain k1 where k1: "checkCheckpoint t rt (trackBoundary t k) = Inr k1"
    by (auto split: sum.splits)
  let ?picked = "pickupLoop (rs n) 0 ps k1"
  from Cons.prems k1 obtain res where
    r: "kartLoop t rt rs (n + 1) ks (snd ?picked) = Inr res" "ks' = fst ?picked # fst res" "ps' = snd res"
    by (auto simp add: Let_def split: sum.splits)
  have "list_all2 (loopRel t rt) ks (fst res)"
    using Cons.IH [of "n + 1" "snd ?picked" "fst res" "snd res"] r(1) by simp
  moreover have "loopRel t rt k (fst ?picked)"
    unfolding loopRel_def using k1 pickupLoop_shape [of "rs n" 0 ps k1] by auto
  ultimately show ?case using r(2) by simp
qed

lemma checkCheckpoint_checkpoint:
  assumes "checkCheckpoint t rt k = Inr k'"
  shows "checkpoint k' = (if crossesCheckpoint t k then (checkpoint k + 1) mod CHECKPOINT_COUNT
                          else checkpoint k)"
proof -
  have c: "0 \<le> checkpoint k"
    using assms by (auto simp add: checkCheckpoint_def split: if_splits)
  note f = advanceCheckpoint_facts [OF c, of rt]
  show ?thesis
    using assms c
    by (auto simp add: checkCheckpoint_def crossesCheckpoint_def Let_def f split: if_splits)
qed

lemma handleCollisions_nth:
  assumes "handleCollisions t rt rs ks ps = Inr (ks', ps')" "j < length ks"
  shows "\<exists>k1. checkCheckpoint t rt (trackBoundary t (ks ! j)) = Inr k1 \<and> sameProgress k1 (ks' ! j)"
proof -
  from assms(1) obtain ks1 ps1 where k: "kartLoop t rt rs 0 ks ps = Inr (ks1, ps1)"
    and e: "ks' = kartCollisions ks1"
    by (auto simp add: handleCollisions_def split: sum.splits)
  have r: "list_all2 (loopRel t rt) ks ks1" by (rule kartLoop_loopRel [OF k])
  then have l: "length ks1 = length ks" by (simp add: list_all2_lengthD)
  have "loopRel t rt (ks ! j) (ks1 ! j)" using r assms(2) by (simp add: list_all2_conv_all_nth)
  then obtain k1 where k1: "checkCheckpoint t rt (trackBoundary t (ks ! j)) = Inr k1"
    and b: "ks1 ! j = k1\<lparr>item := item (ks1 ! j)\<rparr>" by (auto simp add: loopRel_def)
  have "sameProgress k1 (ks1 ! j)" by (subst b) (simp add: sameProgress_def)
  moreover have "sameProgress (ks1 ! j) (kartCollisions ks1 ! j)"
    using kartCollisions_speedRel [of ks1] assms(2) l by (simp add: speedRel_def)
  ultimately show ?thesis using k1 e by (blast intro: sameProgress_trans)
qed

section \<open>Evaluating the tick on example states\<close>

lemma upt_4: "[0 ..< 4] = [0, 1, 2, Suc 2]"
  by (simp add: upt_rec)

lemma bp_accelerate: "accelerate exampleKeys (2 / 125) boostedPlayer = boostedPlayer"
  by (simp add: accelerate_def getMaxSpeed_def Let_def exampleKeys_def boostedPlayer_def
      Kart_new_def CONFIG_defs)

lemma bp_drift: "driftMechanics exampleKeys (2 / 125) boostedPlayer = boostedPlayer"
  by (simp add: driftMechanics_def steeringOf_def Let_def exampleKeys_def boostedPlayer_def
      Kart_new_def)

lemma bp_move:
  "movePlayer (2 / 125) boostedPlayer = boostedPlayer\<lparr>xpos := 452, velocityX := 125\<rparr>"
  by (simp add: movePlayer_def Let_def boostedPlayer_def Kart_new_def)

lemma bp_update:
  "Kart_update (2 / 125) (boostedPlayer\<lparr>xpos := 452, velocityX := 125\<rparr>)
   = boostedPlayer\<lparr>xpos := 452, velocityX := 125, boosting := False, boostTimer := - (3 / 500)\<rparr>"
  by (simp add: Kart_update_def Let_def boostedPlayer_def Kart_new_def)


lemma bp_step:
  "updatePlayerKart 0 (2 / 125)
      (exampleKeys, [boostedPlayer, finishedAI 260, finishedAI 300, finishedAI 340])
     = (exampleKeys,
          [boostedPlayer\<lparr>xpos := 452, velocityX := 125, boosting := False, boostTimer := - (3 / 500)\<rparr>,
           finishedAI 260, finishedAI 300, finishedAI 340])"
proof -
  have "\<not> finished boostedPlayer" "item boostedPlayer = None"
    by (simp_all add: boostedPlayer_def Kart_new_def)
  then show ?thesis
    by (simp add: updatePlayerKart_def Let_def bp_accelerate bp_drift bp_move bp_update)
qed

lemma lateRace_physics:
  "updateKarts (2 / 125) Track_new p ri [0 ..< 4]
      (exampleKeys, [boostedPlayer, finishedAI 260, finishedAI 300, finishedAI 340])
   = Inr (exampleKeys,
          [boostedPlayer\<lparr>xpos := 452, velocityX := 125, boosting := False, boostTimer := - (3 / 500)\<rparr>,
           finishedAI 260, finishedAI 300, finishedAI 340])"
proof -
  have f: "finished (finishedAI y)" for y by (simp add: finishedAI_def)
  have np: "\<not> isPlayer (finishedAI y)" for y by (simp add: finishedAI_def Kart_new_def)
  have pl: "isPlayer boostedPlayer" by (simp add: boostedPlayer_def Kart_new_def)
  show ?thesis
    by (simp add: upt_4 pl np f bp_step updateAIKart_finished)
qed

lemma trackBoundary_inside:
  assumes "\<not> getTrackDistance t (xpos k) (ypos k) < innerLimit t"
    "\<not> getTrackDistance t (xpos k) (ypos k) > outerLimit t"
  shows "trackBoundary t k = k"
  using assms by (simp add: trackBoundary_def Let_def)

lemma checkCheckpoint_no_crossing:
  assumes "0 \<le> checkpoint k" "checkpoint k < int (length (checkpoints t))"
    "\<not> crossesCheckpoint t k"
  shows "checkCheckpoint t rt k =
           Inr (k\<lparr>totalProgress := real_of_int (lap k * CHECKPOINT_COUNT + checkpoint k)
                  + (1 - Math_hypot (xpos k - cpx (checkpoints t ! nat (checkpoint k)))
                                    (ypos k - cpy (checkpoints t ! nat (checkpoint k))) / 200)\<rparr>)"
  using assms by (simp add: checkCheckpoint_def crossesCheckpoint_def Let_def)

lemma pickupLoop_inactive:
  "\<forall>p \<in> set ps. \<not> active p \<Longrightarrow> pickupLoop rs n ps k = (k, ps)"
  by (induction ps arbitrary: n) (simp_all add: Let_def)

lemma fold_bump_id:
  "\<forall>ij \<in> set ps. bump ij ks = ks \<Longrightarrow> fold bump ps ks = ks"
  by (induction ps) simp_all

lemma bump_far:
  "\<not> Math_hypot (xpos (ks ! snd ij) - xpos (ks ! fst ij)) (ypos (ks ! snd ij) - ypos (ks ! fst ij)) < 25
     \<Longrightarrow> bump ij ks = ks"
  by (simp add: bump_def Let_def)

lemma kartPairs_4: "kartPairs 4 = [(0, 1), (0, 2), (0, 3), (1, 2), (1, 3), (2, 3)]"
  by (simp add: kartPairs_def upt_rec)

lemma getTrackDistance_Track_new:
  "getTrackDistance Track_new x y = sqrt ((x - 400) / 320 * ((x - 400) / 320) + (y - 300) / 220 * ((y - 300) / 220))"
  by (simp add: getTrackDistance_def Track_new_simps Let_def)

lemma sqrt_gt_iff_sq: "0 \<le> c \<Longrightarrow> (c < sqrt v) = (c * c < v)"
  using sqrt_le_iff_sq [of c v] by auto

lemma kartLoop_undisturbed:
  assumes "\<forall>k \<in> set ks. undisturbed t k" "\<forall>p \<in> set ps. \<not> active p"
  shows "kartLoop t rt rs n ks ps = Inr (map (withProgress t) ks, ps)"
  using assms(1)
proof (induction ks arbitrary: n)
  case Nil
  show ?case by simp
next
  case (Cons k ks)
  have u: "undisturbed t k" using Cons.prems by simp
  then have tb: "trackBoundary t k = k" by (simp add: undisturbed_def trackBoundary_inside)
  have cc: "checkCheckpoint t rt k = Inr (withProgress t k)"
    using u unfolding withProgress_def
    by (intro checkCheckpoint_no_crossing) (simp_all add: undisturbed_def)
  have "kartLoop t rt rs (n + 1) ks ps = Inr (map (withProgress t) ks, ps)"
    using Cons.IH Cons.prems by simp
  then show ?case
    using tb cc pickupLoop_inactive [OF assms(2)] by (simp add: Let_def)
qed

lemma crossesCheckpoint_Track_new:
  "crossesCheckpoint Track_new k \<longleftrightarrow>
     Math_hypot (xpos k - cpx (checkpoints Track_new ! nat (checkpoint k)))
                (ypos k - cpy (checkpoints Track_new ! nat (checkpoint k))) < 50
     \<and> lastCheckpoint k \<noteq> checkpoint k"
  by (simp add: crossesCheckpoint_def checkpointHit_def Let_def)

lemma finishedAI_fields:
  "xpos (finishedAI y) = 80" "ypos (finishedAI y) = y" "checkpoint (finishedAI y) = 0"
  "lastCheckpoint (finishedAI y) = 3" "speed (finishedAI y) = 170" "finished (finishedAI y)"
  "lap (finishedAI y) = 3" "\<not> isPlayer (finishedAI y)"
  by (simp_all add: finishedAI_def Kart_new_def)

lemma boostedPlayer_fields:
  "xpos boostedPlayer = 450" "ypos boostedPlayer = 80" "checkpoint boostedPlayer = 1"
  "lastCheckpoint boostedPlayer = 0" "speed boostedPlayer = 250" "\<not> finished boostedPlayer"
  "lap boostedPlayer = 2" "isPlayer boostedPlayer" "boosting boostedPlayer" "\<not> slowed boostedPlayer"
  by (simp_all add: boostedPlayer_def Kart_new_def)

lemma undisturbed_Track_new_I:
  assumes "1225 / 1936 \<le> ((xpos k - 400) / 320)\<^sup>2 + ((ypos k - 300) / 220)\<^sup>2"
    "((xpos k - 400) / 320)\<^sup>2 + ((ypos k - 300) / 220)\<^sup>2 \<le> 2809 / 1936"
    "0 \<le> checkpoint k" "checkpoint k < 4"
    "lastCheckpoint k = checkpoint k \<or>
       2500 \<le> (xpos k - cpx (checkpoints Track_new ! nat (checkpoint k)))\<^sup>2
              + (ypos k - cpy (checkpoints Track_new ! nat (checkpoint k)))\<^sup>2"
  shows "undisturbed Track_new k"
proof -
  let ?v = "(xpos k - 400) / 320 * ((xpos k - 400) / 320) + (ypos k - 300) / 220 * ((ypos k - 300) / 220)"
  have v: "35 / 44 * (35 / 44) \<le> ?v" "?v \<le> 53 / 44 * (53 / 44)"
    using assms(1,2) by (simp_all add: power2_eq_square)
  have "\<not> sqrt ?v < 35 / 44" using v(1) sqrt_less_iff_sq [of "35 / 44" ?v] by simp
  moreover have "\<not> 53 / 44 < sqrt ?v" using v(2) sqrt_gt_iff_sq [of "53 / 44" ?v] by simp
  moreover have "\<not> crossesCheckpoint Track_new k"
    using assms(5) by (auto simp add: crossesCheckpoint_Track_new Math_hypot_less_iff power2_eq_square)
  moreover have "checkpoint k < int (length (checkpoints Track_new))"
    using assms(4) by (simp add: checkpoints_Track_new)
  ultimately show ?thesis
    using assms(3)
    by (simp only: undisturbed_def getTrackDistance_Track_new Track_new_limits simp_thms)
qed

lemma finishedAI_undisturbed:
  "undisturbed Track_new (finishedAI 260)" "undisturbed Track_new (finishedAI 300)"
  "undisturbed Track_new (finishedAI 340)"
  by (rule undisturbed_Track_new_I; simp add: finishedAI_fields checkpoints_Track_new power2_eq_square)+

lemma boostedPlayer_undisturbed:
  "undisturbed Track_new
     (boostedPlayer\<lparr>xpos := 452, velocityX := 125, boosting := False, boostTimer := - (3 / 500)\<rparr>)"
  by (rule undisturbed_Track_new_I; simp add: boostedPlayer_fields checkpoints_Track_new power2_eq_square)


lemma withProgress_fields:
  "xpos (withProgress t k) = xpos k" "ypos (withProgress t k) = ypos k"
  "speed (withProgress t k) = speed k" "getMaxSpeed (withProgress t k) = getMaxSpeed k"
  "shielded (withProgress t k) = shielded k"
  by (simp_all add: withProgress_def getMaxSpeed_def)

lemma restingPowerUps_inactive: "\<forall>p \<in> set restingPowerUps. \<not> active p"
  by (simp add: restingPowerUps_def)

lemma lateRace_collisions:
  "handleCollisions Track_new rt rs
     [boostedPlayer\<lparr>xpos := 452, velocityX := 125, boosting := False, boostTimer := - (3 / 500)\<rparr>,
      finishedAI 260, finishedAI 300, finishedAI 340] restingPowerUps
   = Inr (map (withProgress Track_new)
            [boostedPlayer\<lparr>xpos := 452, velocityX := 125, boosting := False, boostTimer := - (3 / 500)\<rparr>,
             finishedAI 260, finishedAI 300, finishedAI 340], restingPowerUps)"
proof -
  let ?mid = "[boostedPlayer\<lparr>xpos := 452, velocityX := 125, boosting := False, boostTimer := - (3 / 500)\<rparr>,
      finishedAI 260, finishedAI 300, finishedAI 340]"
  have "\<forall>k \<in> set ?mid. undisturbed Track_new k"
    by (simp add: finishedAI_undisturbed boostedPlayer_undisturbed)
  then have kl: "kartLoop Track_new rt rs 0 ?mid restingPowerUps
                 = Inr (map (withProgress Track_new) ?mid, restingPowerUps)"
    using restingPowerUps_inactive by (rule kartLoop_undisturbed)
  have "\<forall>ij \<in> set (kartPairs 4). bump ij (map (withProgress Track_new) ?mid) = map (withProgress Track_new) ?mid"
    unfolding kartPairs_4
    by (auto intro!: bump_far
        simp add: withProgress_fields finishedAI_fields boostedPlayer_fields Math_hypot_less_iff)
  then have "fold bump (kartPairs 4) (map (withProgress Track_new) ?mid) = map (withProgress Track_new) ?mid"
    by (rule fold_bump_id)
  moreover have "length (map (withProgress Track_new) ?mid) = 4" by simp
  ultimately have "kartCollisions (map (withProgress Track_new) ?mid) = map (withProgress Track_new) ?mid"
    by (simp only: kartCollisions_def)
  then show ?thesis by (simp only: handleCollisions_def kl sum.case fst_conv snd_conv)
qed

lemma raceTick_eval:
  assumes "updateKarts dt (raceTrack g) (findPlayer (raceKarts g)) ri [0 ..< length (raceKarts g)]
             (raceKeys g, raceKarts g) = Inr st"
    "handleCollisions (raceTrack g) (raceTime g + dt) rs (snd st) (racePowerUps g) = Inr res"
  shows "raceTick dt ri rs g =
           Inr (g\<lparr>raceKeys := fst st, raceKarts := calculatePositions (fst res),
                  racePowerUps := map (PowerUp_update dt) (snd res), raceTime := raceTime g + dt\<rparr>)"
  by (simp add: raceTick_def Let_def assms)

lemma lateRace_fields:
  "raceKeys lateRace = exampleKeys" "raceTrack lateRace = Track_new"
  "raceKarts lateRace = [boostedPlayer, finishedAI 260, finishedAI 300, finishedAI 340]"
  "racePowerUps lateRace = restingPowerUps" "raceTime lateRace = 100"
  by (simp_all add: lateRace_def)

lemma lateRace_tick:
  "raceTick (2 / 125) ri rs lateRace =
     Inr (lateRace\<lparr>raceKeys := exampleKeys,
            raceKarts := calculatePositions (map (withProgress Track_new)
              [boostedPlayer\<lparr>xpos := 452, velocityX := 125, boosting := False, boostTimer := - (3 / 500)\<rparr>,
               finishedAI 260, finishedAI 300, finishedAI 340]),
            racePowerUps := map (PowerUp_update (2 / 125)) restingPowerUps,
            raceTime := raceTime lateRace + 2 / 125\<rparr>)"
proof -
  let ?mid = "[boostedPlayer\<lparr>xpos := 452, velocityX := 125, boosting := False, boostTimer := - (3 / 500)\<rparr>,
      finishedAI 260, finishedAI 300, finishedAI 340]"
  have "length [boostedPlayer, finishedAI 260, finishedAI 300, finishedAI 340] = 4" by simp
  then have len: "[0 ..< length [boostedPlayer, finishedAI 260, finishedAI 300, finishedAI 340]] = [0 ..< 4]"
    by (simp only:)
  have u: "updateKarts (2 / 125) (raceTrack lateRace) (findPlayer (raceKarts lateRace)) ri
             [0 ..< length (raceKarts lateRace)] (raceKeys lateRace, raceKarts lateRace)
           = Inr (exampleKeys, ?mid)"
    by (simp only: lateRace_fields len lateRace_physics)
  have h: "handleCollisions (raceTrack lateRace) (raceTime lateRace + 2 / 125) rs
             (snd (exampleKeys, ?mid)) (racePowerUps lateRace)
           = Inr (map (withProgress Track_new) ?mid, restingPowerUps)"
    by (simp only: lateRace_fields(2,4) snd_conv lateRace_collisions)
  show ?thesis
    using raceTick_eval [OF u h] by (simp only: fst_conv snd_conv)
qed

lemma updatePlayerKart_slows_others:
  assumes "j < length ks" "j \<noteq> i" "\<not> finished (ks ! i)" "i < length ks"
    "keyUseItem kys" "item (ks ! i) = Some Slow" "\<not> shielded (ks ! j)"
  shows "snd (updatePlayerKart i dt (kys, ks)) ! j = (ks ! j)\<lparr>slowed := True, slowTimer := SLOW_DURATION\<rparr>"
proof -
  define k1 where "k1 = movePlayer dt (driftMechanics kys dt (accelerate kys dt (ks ! i)))"
  have it: "item k1 = Some Slow" using assms(6) by (simp add: k1_def playerMove_facts)
  have "snd (updatePlayerKart i dt (kys, ks)) ! j = useItem i (ks[i := k1]) ! j"
    using assms(1-5) it by (simp add: updatePlayerKart_def Let_def k1_def [symmetric])
  also have "\<dots> = (ks ! j)\<lparr>slowed := True, slowTimer := SLOW_DURATION\<rparr>"
    using assms(1,2,4,7) it by (simp add: useItem_other)
  finally show ?thesis .
qed

lemma slowed_only:
  "b = a \<or> b = a\<lparr>slowed := True, slowTimer := v\<rparr>
     \<Longrightarrow> b\<lparr>slowed := slowed a, slowTimer := slowTimer a\<rparr> = a"
  by auto

section \<open>Facts about the drift block\<close>

lemma driftMechanics_release:
  assumes "drifting k" "\<not> keyDrift kys \<or> steeringOf kys = 0 \<or> speed k \<le> 50"
  shows "driftMechanics kys dt k =
           (if driftBoost k > 30 then applyBoost k else k)
             \<lparr>drifting := False, driftAngleOffset := 0, driftBoost := 0,
              angle := angle k + steeringOf kys * steerRateOf k * dt\<rparr>"
  using assms by (auto simp add: driftMechanics_def applyBoost_def Let_def)

lemma accelerate_drift_fields:
  "drifting (accelerate kys dt k) = drifting k" "driftBoost (accelerate kys dt k) = driftBoost k"
  "boostTimer (accelerate kys dt k) = boostTimer k"
  by (simp_all add: accelerate_def Let_def)

lemma movePlayer_drift_fields:
  "drifting (movePlayer dt k) = drifting k" "driftBoost (movePlayer dt k) = driftBoost k"
  "driftAngleOffset (movePlayer dt k) = driftAngleOffset k"
  "boosting (movePlayer dt k) = boosting k" "boostTimer (movePlayer dt k) = boostTimer k"
  by (simp_all add: movePlayer_def Let_def)

lemma Kart_update_drift_fields:
  "drifting (Kart_update dt k) = drifting k" "driftBoost (Kart_update dt k) = driftBoost k"
  "driftAngleOffset (Kart_update dt k) = driftAngleOffset k"
  by (simp_all add: Kart_update_def Let_def)

lemma Kart_update_boost:
  "boostTimer k > 0 \<Longrightarrow> dt < boostTimer k \<Longrightarrow>
     boosting (Kart_update dt k) = boosting k \<and> boostTimer (Kart_update dt k) = boostTimer k - dt"
  by (simp add: Kart_update_def Let_def)

lemma useItem_self_drift_fields:
  assumes "i < length ks"
  shows "drifting (useItem i ks ! i) = drifting (ks ! i)" "driftBoost (useItem i ks ! i) = driftBoost (ks ! i)"
    "driftAngleOffset (useItem i ks ! i) = driftAngleOffset (ks ! i)"
  using assms by (simp_all add: useItem_self split: option.split Item.split)

lemma driftingKart_fields:
  "drifting (driftingKart c)" "driftBoost (driftingKart c) = c" "\<not> finished (driftingKart c)"
  "item (driftingKart c) = None" "\<not> boosting (driftingKart c)" "boostTimer (driftingKart c) = 0"
  by (simp_all add: driftingKart_def Kart_new_def)

section \<open>Facts about the target speed of an AI kart\<close>

lemma avoidStep_facts:
  "xpos (fst (avoidStep i dt jo (k, ts))) = xpos k"
  "ypos (fst (avoidStep i dt jo (k, ts))) = ypos k"
  "snd (avoidStep i dt jo (k, ts)) =
     (if fst jo \<noteq> i \<and> Math_hypot (xpos (snd jo) - xpos k) (ypos (snd jo) - ypos k) < 40
      then ts * 0.9 else ts)"
  by (simp_all add: avoidStep_def Let_def)

lemma avoid_fold_speed:
  "snd (fold (avoidStep i dt) js (k, ts)) =
     ts * 0.9 ^ length (filter (\<lambda>jo. fst jo \<noteq> i \<and>
                  Math_hypot (xpos (snd jo) - xpos k) (ypos (snd jo) - ypos k) < 40) js)"
proof (induction js arbitrary: k ts)
  case Nil
  show ?case by simp
next
  case (Cons jo js)
  obtain k1 t1 where st: "avoidStep i dt jo (k, ts) = (k1, t1)" by (cases "avoidStep i dt jo (k, ts)")
  have p: "xpos k1 = xpos k" "ypos k1 = ypos k"
    and t1: "t1 = (if fst jo \<noteq> i \<and> Math_hypot (xpos (snd jo) - xpos k) (ypos (snd jo) - ypos k) < 40
                   then ts * 0.9 else ts)"
    using avoidStep_facts [of i dt jo k ts] st by simp_all
  have "snd (fold (avoidStep i dt) (jo # js) (k, ts)) = snd (fold (avoidStep i dt) js (k1, t1))"
    by (simp add: st)
  also have "\<dots> = t1 * 0.9 ^ length (filter (\<lambda>jo. fst jo \<noteq> i \<and>
                  Math_hypot (xpos (snd jo) - xpos k) (ypos (snd jo) - ypos k) < 40) js)"
    using Cons.IH [of k1 t1] by (simp add: p)
  finally show ?case by (simp add: t1)
qed

lemma steerToWaypoint_fields:
  "xpos (steerToWaypoint t dt k) = xpos k" "ypos (steerToWaypoint t dt k) = ypos k"
  "totalProgress (steerToWaypoint t dt k) = totalProgress k"
proof -
  note e = steerToWaypoint_shape [of t dt k]
  show "xpos (steerToWaypoint t dt k) = xpos k" by (subst e) simp
  show "ypos (steerToWaypoint t dt k) = ypos k" by (subst e) simp
  show "totalProgress (steerToWaypoint t dt k) = totalProgress k" by (subst e) simp
qed

lemma rubberBand_steered:
  "rubberBand (steerToWaypoint t dt k) p = rubberBand k p"
  by (simp add: rubberBand_def steerToWaypoint_fields Let_def split: option.split)

lemma aiTargetSpeed_formula:
  "aiTargetSpeed i dt t p ks = rubberBand (ks ! i) (map_option (\<lambda>p. ks ! p) p) * 0.9 ^ closeKarts i ks"
  by (simp add: aiTargetSpeed_def aiPlan_def Let_def avoid_fold_speed rubberBand_steered
      steerToWaypoint_fields closeKarts_def)

lemma chasingKarts_progress:
  "totalProgress (chasingKarts gap ! 0) = 1.6" "totalProgress (chasingKarts gap ! Suc 0) = 1.0"
  by (simp_all add: chasingKarts_def)

lemma closeKarts_chasing:
  "closeKarts (Suc 0) (chasingKarts 100) = 0" "closeKarts (Suc 0) (chasingKarts 30) = 1"
  by (simp_all add: closeKarts_def chasingKarts_def enumerate_eq_zip upt_rec Kart_new_def
      Math_hypot_less_iff)

section \<open>Facts about the progress score\<close>

lemma advanceCheckpoint_progress:
  assumes "0 \<le> checkpoint k" "checkpoint k < CHECKPOINT_COUNT"
  shows "lap (advanceCheckpoint rt k) * CHECKPOINT_COUNT + checkpoint (advanceCheckpoint rt k)
         = lap k * CHECKPOINT_COUNT + checkpoint k + 1"
proof (cases "checkpoint k = 3")
  case True
  then show ?thesis
    by (simp add: advanceCheckpoint_def Let_def js_rem_def CHECKPOINT_COUNT_def)
next
  case False
  then have "(checkpoint k + 1) mod 4 = checkpoint k + 1" "checkpoint k + 1 \<noteq> 0"
    using assms by (simp_all add: CHECKPOINT_COUNT_def)
  then show ?thesis
    using assms by (simp add: advanceCheckpoint_def Let_def js_rem_nonneg CHECKPOINT_COUNT_def)
qed

lemma checkCheckpoint_result:
  assumes "checkCheckpoint t rt k = Inr k'"
  shows "k' = (if crossesCheckpoint t k then advanceCheckpoint rt k else k)
           \<lparr>totalProgress :=
              real_of_int (lap k' * CHECKPOINT_COUNT + checkpoint k') + (1 - targetDistance t k / 200)\<rparr>"
    "0 \<le> checkpoint k" "checkpoint k < int (length (checkpoints t))"
proof -
  show c: "0 \<le> checkpoint k" "checkpoint k < int (length (checkpoints t))"
    using assms by (auto simp add: checkCheckpoint_def split: if_splits)
  note f = advanceCheckpoint_facts [OF c(1), of rt]
  show "k' = (if crossesCheckpoint t k then advanceCheckpoint rt k else k)
           \<lparr>totalProgress :=
              real_of_int (lap k' * CHECKPOINT_COUNT + checkpoint k') + (1 - targetDistance t k / 200)\<rparr>"
    using assms c
    by (auto simp add: checkCheckpoint_def crossesCheckpoint_def targetDistance_def Let_def f
        split: if_splits)
qed

lemma checkCheckpoint_progress:
  assumes "checkCheckpoint t rt k = Inr k'" "length (checkpoints t) = nat CHECKPOINT_COUNT"
  shows "totalProgress k' = real_of_int (lap k' * CHECKPOINT_COUNT + checkpoint k')
                            + (1 - targetDistance t k / 200)"
    "totalProgress k' = real_of_int (lap k * CHECKPOINT_COUNT + checkpoint k)
                        + (if crossesCheckpoint t k then 1 else 0) + (1 - targetDistance t k / 200)"
proof -
  note r = checkCheckpoint_result [OF assms(1)]
  have c: "0 \<le> checkpoint k" "checkpoint k < CHECKPOINT_COUNT"
    using r(2,3) assms(2) by (simp_all add: CHECKPOINT_COUNT_def)
  show p: "totalProgress k' = real_of_int (lap k' * CHECKPOINT_COUNT + checkpoint k')
                            + (1 - targetDistance t k / 200)"
    by (subst r(1)) simp
  have "lap k' * CHECKPOINT_COUNT + checkpoint k'
        = lap k * CHECKPOINT_COUNT + checkpoint k + (if crossesCheckpoint t k then 1 else 0)"
    by (subst (1 2) r(1)) (simp add: advanceCheckpoint_progress [OF c])
  then show "totalProgress k' = real_of_int (lap k * CHECKPOINT_COUNT + checkpoint k)
                        + (if crossesCheckpoint t k then 1 else 0) + (1 - targetDistance t k / 200)"
    unfolding p by simp
qed

lemma targetDistance_nonneg: "0 \<le> targetDistance t k"
  by (simp add: targetDistance_def Math_hypot_nonneg)

lemma crossesCheckpoint_closer:
  assumes "crossesCheckpoint t k2" "checkpoint k2 = checkpoint k" "lastCheckpoint k2 = lastCheckpoint k"
    "targetDistance t k < targetDistance t k2"
  shows "crossesCheckpoint t k"
  using assms by (simp add: crossesCheckpoint_def checkpointHit_def targetDistance_def Let_def)

lemma Math_hypot_le_iff: "0 \<le> c \<Longrightarrow> (Math_hypot a b \<le> c) = (a * a + b * b \<le> c * c)"
  by (simp add: Math_hypot_def sqrt_le_iff_sq)

lemma Kart_new_fields:
  "xpos (Kart_new x y a p) = x" "ypos (Kart_new x y a p) = y" "lap (Kart_new x y a p) = 0"
  "checkpoint (Kart_new x y a p) = 0" "lastCheckpoint (Kart_new x y a p) = - 1"
  "speed (Kart_new x y a p) = 0" "\<not> finished (Kart_new x y a p)"
  "isPlayer (Kart_new x y a p) = p" "\<not> shielded (Kart_new x y a p)"
  "item (Kart_new x y a p) = None"
  by (simp_all add: Kart_new_def)

lemma checkCheckpoint_start:
  "\<bar>y - 80\<bar> < 50 \<Longrightarrow>
   checkCheckpoint Track_new rt (Kart_new 400 y 0 True)
     = Inr ((Kart_new 400 y 0 True)\<lparr>lastCheckpoint := 0, checkpoint := 1,
              totalProgress := 2 - \<bar>y - 80\<bar> / 200\<rparr>)"
  by (simp add: checkCheckpoint_def checkpoints_Track_new checkpointHit_def advanceCheckpoint_def
      js_rem_def Let_def Kart_new_def Math_hypot_zero_left CHECKPOINT_COUNT_def TOTAL_LAPS_def)

lemma targetDistance_start: "targetDistance Track_new (Kart_new 400 y 0 True) = \<bar>y - 80\<bar>"
  by (simp add: targetDistance_def checkpoints_Track_new Kart_new_def Math_hypot_zero_left)

section \<open>Facts about the kart-to-kart loop\<close>





lemma bump_far_pair:
  "\<not> kartDistance (ks ! i) (ks ! j) < 25 \<Longrightarrow> bump (i, j) ks = ks"
  by (simp add: bump_def Let_def kartDistance_def)

lemma kartCollisions_two:
  "length ks = 2 \<Longrightarrow> kartCollisions ks = bump (0, 1) ks"
  by (simp add: kartCollisions_def kartPairs_def upt_rec)




section \<open>Evaluating a wall hit\<close>

lemma kartLoop_head:
  assumes "checkCheckpoint t rt (trackBoundary t k) = Inr k1"
    "\<forall>k \<in> set ks. undisturbed t k" "\<forall>p \<in> set ps. \<not> active p"
  shows "kartLoop t rt rs n (k # ks) ps = Inr (k1 # map (withProgress t) ks, ps)"
  using assms(1) pickupLoop_inactive [OF assms(3)] kartLoop_undisturbed [OF assms(2,3)]
  by (simp add: Let_def)

lemma shieldedKart_fields:
  "xpos shieldedKart = 816" "ypos shieldedKart = 300" "speed shieldedKart = 100"
  "shielded shieldedKart" "shieldTimer shieldedKart = 5" "checkpoint shieldedKart = 2"
  "lastCheckpoint shieldedKart = 1"
  by (simp_all add: shieldedKart_def Kart_new_def)

lemma getTrackDistance_axis: "getTrackDistance Track_new x 300 = \<bar>(x - 400) / 320\<bar>"
proof -
  have "sqrt (d * d + (300 - 300) / 220 * ((300 - 300) / 220)) = \<bar>d\<bar>" for d :: real
    by simp
  then show ?thesis
    unfolding getTrackDistance_def Let_def Track_new_simps by (rule meta_spec)
qed

lemma shieldedKart_wall:
  "trackBoundary Track_new shieldedKart
     = shieldedKart\<lparr>speed := 70, xpos := 8640 / 11, ypos := 300\<rparr>"
proof -
  have "getTrackDistance Track_new 816 300 = 13 / 10"
    by (simp add: getTrackDistance_axis)
  then show ?thesis
    by (simp add: trackBoundary_def Let_def shieldedKart_fields Track_new_limits Track_new_simps
        Math_atan2_def)
qed

lemma shieldedKart_checkpoint:
  "checkCheckpoint Track_new rt (shieldedKart\<lparr>speed := 70, xpos := 8640 / 11, ypos := 300\<rparr>)
     = Inr (withProgress Track_new (shieldedKart\<lparr>speed := 70, xpos := 8640 / 11, ypos := 300\<rparr>))"
  unfolding withProgress_def
  by (rule checkCheckpoint_no_crossing)
     (simp_all add: shieldedKart_fields checkpoints_Track_new crossesCheckpoint_Track_new
        Math_hypot_less_iff)

section \<open>Two karts in the collision pass\<close>







section \<open>Ranking by the progress score\<close>

lemma progressKarts_fields:
  "xpos leadingKart = 400" "ypos leadingKart = 80" "checkpoint leadingKart = 1"
  "lastCheckpoint leadingKart = 0" "lap leadingKart = 0" "isPlayer leadingKart"
  "xpos trailingKart = 340" "ypos trailingKart = 80" "checkpoint trailingKart = 0"
  "lastCheckpoint trailingKart = - 1" "lap trailingKart = 0" "\<not> isPlayer trailingKart"
  by (simp_all add: leadingKart_def trailingKart_def Kart_new_def)

lemma progressKarts_undisturbed: "\<forall>k \<in> set progressKarts. undisturbed Track_new k"
  unfolding progressKarts_def
  by (simp; intro conjI; rule undisturbed_Track_new_I;
      simp add: progressKarts_fields checkpoints_Track_new power2_eq_square)

lemma progressKarts_collisions:
  "handleCollisions Track_new rt rs progressKarts restingPowerUps
     = Inr (map (withProgress Track_new) progressKarts, restingPowerUps)"
proof -
  let ?ks = "map (withProgress Track_new) progressKarts"
  have kl: "kartLoop Track_new rt rs 0 progressKarts restingPowerUps = Inr (?ks, restingPowerUps)"
    using progressKarts_undisturbed restingPowerUps_inactive by (rule kartLoop_undisturbed)
  have "kartDistance (?ks ! 0) (?ks ! 1) = 60"
    by (simp add: progressKarts_def kartDistance_def withProgress_fields progressKarts_fields
        Math_hypot_zero_right)
  then have "bump (0, 1) ?ks = ?ks" by (simp add: bump_far_pair)
  moreover have "length ?ks = 2" by (simp add: progressKarts_def)
  ultimately have "kartCollisions ?ks = ?ks" by (simp only: kartCollisions_two)
  then show ?thesis by (simp only: handleCollisions_def kl sum.case fst_conv snd_conv)
qed

lemma progressKarts_scores:
  "totalProgress (withProgress Track_new leadingKart) = 2 - Math_hypot 320 220 / 200"
  "totalProgress (withProgress Track_new trailingKart) = 7 / 10"
  "lap (withProgress Track_new leadingKart) = 0"
  "checkpoint (withProgress Track_new leadingKart) = 1"
  "lap (withProgress Track_new trailingKart) = 0"
  "checkpoint (withProgress Track_new trailingKart) = 0"
  "isPlayer (withProgress Track_new leadingKart)"
  "\<not> isPlayer (withProgress Track_new trailingKart)"
  by (simp_all add: withProgress_def progressKarts_fields checkpoints_Track_new
      Math_hypot_zero_right Math_hypot_def CHECKPOINT_COUNT_def)

lemma hypot_320_220: "388 < Math_hypot 320 220" "Math_hypot 320 220 < 389"
  using Math_hypot_le_iff [of 388 320 220] Math_hypot_less_iff [of 389 320 220] by simp_all

lemma calculatePositions_two:
  assumes "totalProgress a < totalProgress b"
  shows "position (calculatePositions [a, b] ! 0) = 2"
    "position (calculatePositions [a, b] ! 1) = 1"
  using assms by (simp_all add: calculatePositions_def setPosition_def Let_def upt_rec)

section \<open>The claims of the specification\<close>

text \<open>
  C1, as amended. In every tick of a well-formed race in which all speeds start in
  \<open>[0, MAX_SPEED + DRIFT_BOOST_SPEED]\<close>, every speed is again in that range at the end of the
  tick (the upper end is the largest value \<^verbatim>\<open>getMaxSpeed()\<close> can take), and the tick does
  not throw. The bound by \<^verbatim>\<open>getMaxSpeed()\<close> itself holds right after the physics step of
  an unfinished kart, player or AI, for the boost and slow flags the kart had when its step
  began.
\<close>

theorem speed_stays_in_range:
  assumes "wellFormed g"
    "\<forall>k \<in> set (raceKarts g). 0 \<le> speed k \<and> speed k \<le> MAX_SPEED + DRIFT_BOOST_SPEED"
  shows "(\<exists>g'. raceTick dt ri rs g = Inr g' \<and> wellFormed g'
            \<and> (\<forall>k \<in> set (raceKarts g'). 0 \<le> speed k \<and> speed k \<le> MAX_SPEED + DRIFT_BOOST_SPEED))
       \<and> (i < length ks \<and> \<not> finished (ks ! i) \<longrightarrow>
            0 \<le> speed (snd (updatePlayerKart i dt (kys, ks)) ! i)
            \<and> speed (snd (updatePlayerKart i dt (kys, ks)) ! i) \<le> getMaxSpeed (ks ! i))
       \<and> (i < length ks \<and> \<not> finished (ks ! i) \<and> waypoints t \<noteq> [] \<longrightarrow>
            (\<exists>ks'. updateAIKart i dt t p r ks = Inr ks'
               \<and> 0 \<le> speed (ks' ! i) \<and> speed (ks' ! i) \<le> getMaxSpeed (ks ! i)))"
proof (intro conjI)
  obtain g' where t: "raceTick dt ri rs g = Inr g'" and wf: "wellFormed g'"
    and l: "length (raceKarts g') = length (raceKarts g)"
    and s: "(\<forall>j < length (raceKarts g). speedOk (raceKarts g ! j))
                \<longrightarrow> (\<forall>j < length (raceKarts g). speedOk (raceKarts g' ! j))"
    using raceTick_rel [OF assms(1), of dt ri rs] by blast
  have "\<forall>j < length (raceKarts g). speedOk (raceKarts g ! j)"
    using assms(2) by (simp add: speedOk_def)
  then have "\<forall>j < length (raceKarts g'). speedOk (raceKarts g' ! j)" using s l by simp
  then have "\<forall>k \<in> set (raceKarts g'). 0 \<le> speed k \<and> speed k \<le> MAX_SPEED + DRIFT_BOOST_SPEED"
    by (auto simp add: in_set_conv_nth speedOk_def)
  then show "\<exists>g'. raceTick dt ri rs g = Inr g' \<and> wellFormed g'
            \<and> (\<forall>k \<in> set (raceKarts g'). 0 \<le> speed k \<and> speed k \<le> MAX_SPEED + DRIFT_BOOST_SPEED)"
    using t wf by blast
next
  show "i < length ks \<and> \<not> finished (ks ! i) \<longrightarrow>
            0 \<le> speed (snd (updatePlayerKart i dt (kys, ks)) ! i)
            \<and> speed (snd (updatePlayerKart i dt (kys, ks)) ! i) \<le> getMaxSpeed (ks ! i)"
    using updatePlayerKart_self(2,3) by blast
next
  show "i < length ks \<and> \<not> finished (ks ! i) \<and> waypoints t \<noteq> [] \<longrightarrow>
            (\<exists>ks'. updateAIKart i dt t p r ks = Inr ks'
               \<and> 0 \<le> speed (ks' ! i) \<and> speed (ks' ! i) \<le> getMaxSpeed (ks ! i))"
  proof
    assume a: "i < length ks \<and> \<not> finished (ks ! i) \<and> waypoints t \<noteq> []"
    then obtain ks' where k: "updateAIKart i dt t p r ks = Inr ks'"
      using updateAIKart_total [of t i dt p r ks] by blast
    show "\<exists>ks'. updateAIKart i dt t p r ks = Inr ks'
               \<and> 0 \<le> speed (ks' ! i) \<and> speed (ks' ! i) \<le> getMaxSpeed (ks ! i)"
      using k updateAIKart_self(2,3) [OF k] a by blast
  qed
qed

theorem speed_stays_in_range_witness:
  "wellFormed lateRace
   \<and> (\<exists>g'. raceTick (2 / 125) (\<lambda>i. 1) (\<lambda>i n. 0) lateRace = Inr g' \<and> wellFormed g'
          \<and> (\<forall>k \<in> set (raceKarts g'). 0 \<le> speed k \<and> speed k \<le> MAX_SPEED + DRIFT_BOOST_SPEED))
   \<and> \<not> finished ([boostedPlayer, Kart_new 400 80 0 False] ! 0)
   \<and> 0 \<le> speed (snd (updatePlayerKart 0 (2 / 125) (exampleKeys, [boostedPlayer, Kart_new 400 80 0 False])) ! 0)
   \<and> speed (snd (updatePlayerKart 0 (2 / 125) (exampleKeys, [boostedPlayer, Kart_new 400 80 0 False])) ! 0)
        \<le> getMaxSpeed boostedPlayer
   \<and> \<not> finished ([boostedPlayer, Kart_new 400 80 0 False] ! 1)
   \<and> (\<exists>ks'. updateAIKart 1 (2 / 125) Track_new (Some 0) 1 [boostedPlayer, Kart_new 400 80 0 False] = Inr ks'
          \<and> 0 \<le> speed (ks' ! 1) \<and> speed (ks' ! 1) \<le> getMaxSpeed (Kart_new 400 80 0 False))"
proof -
  have s: "\<forall>k \<in> set (raceKarts lateRace). 0 \<le> speed k \<and> speed k \<le> MAX_SPEED + DRIFT_BOOST_SPEED"
    by (simp add: lateRace_fields boostedPlayer_fields finishedAI_fields CONFIG_defs)
  have f: "\<not> finished ([boostedPlayer, Kart_new 400 80 0 False] ! 0)"
    "\<not> finished ([boostedPlayer, Kart_new 400 80 0 False] ! 1)"
    by (simp_all add: boostedPlayer_fields Kart_new_def)
  note a = speed_stays_in_range [OF lateRace_wf s, of "2 / 125" "\<lambda>i. 1" "\<lambda>i n. 0" 0
      "[boostedPlayer, Kart_new 400 80 0 False]" exampleKeys Track_new "Some 0" 1]
  note b = speed_stays_in_range [OF lateRace_wf s, of "2 / 125" "\<lambda>i. 1" "\<lambda>i n. 0" 1
      "[boostedPlayer, Kart_new 400 80 0 False]" exampleKeys Track_new "Some 0" 1]
  show ?thesis
    using a b f lateRace_wf Track_new_wf(2) by simp
qed

text \<open>
  C1 as stated fails: at the end of a tick the speed can exceed \<^verbatim>\<open>getMaxSpeed()\<close> for
  the flags at that moment. In the example race the player is clamped to 250 while the boost
  is on, and the boost timer runs out in \<^verbatim>\<open>kart.update(dt)\<close> at the end of the same
  physics step; nothing in the collision pass clamps the speed again, so the tick ends with
  speed 250 and a maximum of 200.
\<close>

theorem speed_bound_counterexample:
  "(case raceTick (2 / 125) (\<lambda>i. 1) (\<lambda>i n. 0) lateRace of
      Inl e \<Rightarrow> False
    | Inr g' \<Rightarrow> speed (raceKarts g' ! 0) = 250 \<and> getMaxSpeed (raceKarts g' ! 0) = 200)"
proof -
  let ?mid = "[boostedPlayer\<lparr>xpos := 452, velocityX := 125, boosting := False, boostTimer := - (3 / 500)\<rparr>,
      finishedAI 260, finishedAI 300, finishedAI 340]"
  let ?ks = "map (withProgress Track_new) ?mid"
  have "speed (calculatePositions ?ks ! 0) = 250"
    by (simp add: calculatePositions_facts withProgress_fields boostedPlayer_fields)
  moreover have "getMaxSpeed (calculatePositions ?ks ! 0) = getMaxSpeed (?mid ! 0)"
    by (simp add: calculatePositions_facts withProgress_fields)
  moreover have "getMaxSpeed (?mid ! 0) = 200"
    by (simp add: getMaxSpeed_def boostedPlayer_fields MAX_SPEED_def)
  ultimately show ?thesis by (simp add: lateRace_tick)
qed

text \<open>
  C2. The claim is that the next collision or wall event of a shielded kart clears the shield
  and spares the kart the speed penalty. \<^verbatim>\<open>Kart.hit()\<close> does exactly that, but the
  collision pass never calls it: a shielded kart beyond the outer limit is slowed from 100 to
  70 by the wall and keeps its shield and shield timer. The theorem evaluates both on the
  same kart.
\<close>

theorem shield_ignored_by_wall:
  "shielded shieldedKart \<and> speed shieldedKart = 100
   \<and> getTrackDistance Track_new (xpos shieldedKart) (ypos shieldedKart) > outerLimit Track_new
   \<and> hit shieldedKart = (False, shieldedKart\<lparr>shielded := False, shieldTimer := 0\<rparr>)
   \<and> (case handleCollisions Track_new 0 (\<lambda>i n. 0)
              [shieldedKart, finishedAI 260, finishedAI 300, finishedAI 340] restingPowerUps of
         Inl e \<Rightarrow> False
       | Inr res \<Rightarrow> speed (fst res ! 0) = 70 \<and> shielded (fst res ! 0) \<and> shieldTimer (fst res ! 0) = 5)"
proof -
  let ?s = "shieldedKart\<lparr>speed := 70, xpos := 8640 / 11, ypos := 300\<rparr>"
  let ?ks = "withProgress Track_new ?s # map (withProgress Track_new) [finishedAI 260, finishedAI 300, finishedAI 340]"
  have u: "\<forall>k \<in> set [finishedAI 260, finishedAI 300, finishedAI 340]. undisturbed Track_new k"
    by (simp add: finishedAI_undisturbed)
  have c: "checkCheckpoint Track_new 0 (trackBoundary Track_new shieldedKart)
           = Inr (withProgress Track_new ?s)"
    by (simp only: shieldedKart_wall shieldedKart_checkpoint)
  have kl: "kartLoop Track_new 0 (\<lambda>i n. 0) 0 [shieldedKart, finishedAI 260, finishedAI 300, finishedAI 340]
              restingPowerUps = Inr (?ks, restingPowerUps)"
    by (rule kartLoop_head [OF c u restingPowerUps_inactive])
  have "\<forall>ij \<in> set (kartPairs 4). bump ij ?ks = ?ks"
    unfolding kartPairs_4
    by (auto intro!: bump_far
        simp add: withProgress_fields finishedAI_fields shieldedKart_fields Math_hypot_less_iff)
  then have "fold bump (kartPairs 4) ?ks = ?ks" by (rule fold_bump_id)
  moreover have "length ?ks = 4" by simp
  ultimately have kc: "kartCollisions ?ks = ?ks" by (simp only: kartCollisions_def)
  have h: "handleCollisions Track_new 0 (\<lambda>i n. 0)
              [shieldedKart, finishedAI 260, finishedAI 300, finishedAI 340] restingPowerUps
           = Inr (?ks, restingPowerUps)"
    by (simp only: handleCollisions_def kl sum.case fst_conv snd_conv kc)
  have o: "getTrackDistance Track_new (xpos shieldedKart) (ypos shieldedKart) > outerLimit Track_new"
    by (simp add: shieldedKart_fields getTrackDistance_axis Track_new_limits)
  have "speed (?ks ! 0) = 70" "shielded (?ks ! 0)" "shieldTimer (?ks ! 0) = 5"
    by (simp_all add: withProgress_def shieldedKart_fields)
  then show ?thesis
    using o by (simp add: h hit_def shieldedKart_fields)
qed

text \<open>
  C3. The claim does not hold of the code: the fractional term of the progress score is
  \<open>1 - d / 200\<close> with no lower bound, and neighbouring checkpoints of the track are about 388
  units apart, so the term is negative over most of the way to the next checkpoint and the
  score is not monotonic. In the collision pass on \<open>progressKarts\<close> the player, which has crossed
  checkpoint 0 and targets checkpoint 1, gets a score below 0.06 (fractional term negative),
  while the AI kart that is still 60 units before checkpoint 0 gets 0.7. The ranking then
  puts the player second and the AI kart first, and the rubber band takes the AI kart to be
  ahead of the player and lowers its target speed.
\<close>

theorem progress_ranks_leader_second:
  "(case handleCollisions Track_new 0 (\<lambda>i n. 0) progressKarts restingPowerUps of
      Inl e \<Rightarrow> False
    | Inr res \<Rightarrow>
        length (fst res) = 2
        \<and> isPlayer (fst res ! 0) \<and> lap (fst res ! 0) = 0 \<and> checkpoint (fst res ! 0) = 1
        \<and> \<not> isPlayer (fst res ! 1) \<and> lap (fst res ! 1) = 0 \<and> checkpoint (fst res ! 1) = 0
        \<and> totalProgress (fst res ! 0)
            - real_of_int (lap (fst res ! 0) * CHECKPOINT_COUNT + checkpoint (fst res ! 0)) < 0
        \<and> totalProgress (fst res ! 0) < 3 / 50
        \<and> totalProgress (fst res ! 1) = 7 / 10
        \<and> position (calculatePositions (fst res) ! 0) = 2
        \<and> position (calculatePositions (fst res) ! 1) = 1
        \<and> rubberBand (fst res ! 1) (Some (fst res ! 0))
            = MAX_SPEED * 0.85 * (1 - RUBBER_BAND_STRENGTH * 0.5))"
proof -
  let ?a = "withProgress Track_new leadingKart"
  let ?b = "withProgress Track_new trailingKart"
  have m: "map (withProgress Track_new) progressKarts = [?a, ?b]"
    by (simp add: progressKarts_def)
  have h: "handleCollisions Track_new 0 (\<lambda>i n. 0) progressKarts restingPowerUps
           = Inr ([?a, ?b], restingPowerUps)"
    unfolding m [symmetric] by (rule progressKarts_collisions)
  note s = progressKarts_scores
  have lt: "totalProgress ?a < 3 / 50" using hypot_320_220(1) by (simp add: s(1))
  then have o: "totalProgress ?a < totalProgress ?b" by (simp add: s(2))
  have f: "totalProgress ?a - real_of_int (lap ?a * CHECKPOINT_COUNT + checkpoint ?a) < 0"
    using lt by (simp add: s(3,4))
  have r: "rubberBand ?b (Some ?a) = MAX_SPEED * 0.85 * (1 - RUBBER_BAND_STRENGTH * 0.5)"
    using lt by (simp add: rubberBand_def Let_def s(2))
  note p = calculatePositions_two [OF o]
  show ?thesis
    unfolding h using s(2-8) lt f r p by simp
qed




text \<open>
  C5. Once the finished flag of a kart is true, no later tick changes it back or changes the
  finish time: after any run of ticks from a well-formed race (whatever the keys, time steps
  and random numbers of the frames), the kart is still finished and has the finish time it
  had. The run does not throw.
\<close>

theorem finished_latch:
  assumes "wellFormed g" "i < length (raceKarts g)" "finished (raceKarts g ! i)"
  shows "\<exists>g'. raceRun fs g = Inr g' \<and> finished (raceKarts g' ! i)
          \<and> finishTime (raceKarts g' ! i) = finishTime (raceKarts g ! i)"
  using raceRun_rel [OF assms(1), of fs] assms(2,3) by auto

theorem finished_latch_witness:
  "wellFormed lateRace \<and> finished (raceKarts lateRace ! 2) \<and> finishTime (raceKarts lateRace ! 2) = 95
   \<and> (\<exists>g'. raceRun [(exampleKeys, 2 / 125, \<lambda>i. 1, \<lambda>i n. 0), (exampleKeys, 1 / 60, \<lambda>i. 0, \<lambda>i n. 1 / 2)]
              lateRace = Inr g'
          \<and> finished (raceKarts g' ! 2) \<and> finishTime (raceKarts g' ! 2) = 95)"
proof -
  have a: "2 < length (raceKarts lateRace)" "finished (raceKarts lateRace ! 2)"
    "finishTime (raceKarts lateRace ! 2) = 95"
    by (simp_all add: lateRace_def finishedAI_def)
  show ?thesis
    using finished_latch [OF lateRace_wf a(1,2),
        of "[(exampleKeys, 2 / 125, \<lambda>i. 1, \<lambda>i n. 0), (exampleKeys, 1 / 60, \<lambda>i. 0, \<lambda>i n. 1 / 2)]"]
      a lateRace_wf
    by (simp del: raceRun.simps)
qed

text \<open>
  C6. In every tick of a well-formed race the target checkpoint index of every kart stays in
  \<open>[0, CHECKPOINT_COUNT)\<close> and changes only on a crossing event, and then by exactly +1
  modulo \<open>CHECKPOINT_COUNT\<close>: the index at the end of the tick is the old index plus one
  (modulo the count) if the kart, as it stands after the physics steps and the wall
  correction, passes the crossing test of \<^verbatim>\<open>checkCheckpoint\<close>, and the old index
  otherwise. The tick does not throw.
\<close>

theorem checkpoint_advances_in_order:
  assumes "wellFormed g" "i < length (raceKarts g)"
  shows "\<exists>g' st. raceTick dt ri rs g = Inr g'
          \<and> updateKarts dt (raceTrack g) (findPlayer (raceKarts g)) ri
                [0 ..< length (raceKarts g)] (raceKeys g, raceKarts g) = Inr st
          \<and> checkpoint (raceKarts g' ! i) =
               (if crossesCheckpoint (raceTrack g) (trackBoundary (raceTrack g) (snd st ! i))
                then (checkpoint (raceKarts g ! i) + 1) mod CHECKPOINT_COUNT
                else checkpoint (raceKarts g ! i))
          \<and> 0 \<le> checkpoint (raceKarts g' ! i) \<and> checkpoint (raceKarts g' ! i) < CHECKPOINT_COUNT"
proof -
  let ?ks = "raceKarts g" and ?t = "raceTrack g"
  obtain g' where t: "raceTick dt ri rs g = Inr g'" and l: "length (raceKarts g') = length ?ks"
    and rel: "\<forall>j < length ?ks. tickRel (?ks ! j) (raceKarts g' ! j)"
    using raceTick_rel [OF assms(1), of dt ri rs] by blast
  from t obtain st res where
    u: "updateKarts dt ?t (findPlayer ?ks) ri [0 ..< length ?ks] (raceKeys g, ?ks) = Inr st"
    and h: "handleCollisions ?t (raceTime g + dt) rs (snd st) (racePowerUps g) = Inr res"
    and e: "raceKarts g' = calculatePositions (fst res)"
    by (auto simp add: raceTick_def Let_def split: sum.splits)
  have wp: "waypoints ?t \<noteq> []" using assms(1) by (simp add: wellFormed_def)
  have "\<forall>i \<in> set [0 ..< length ?ks]. i < length (snd (raceKeys g, ?ks))" by simp
  from updateKarts_rel [OF wp this, of dt "findPlayer ?ks" ri] u
  have l1: "length (snd st) = length ?ks" and p: "\<forall>j < length ?ks. physRel (?ks ! j) (snd st ! j)"
    by auto
  have i1: "i < length (snd st)" using assms(2) l1 by simp
  obtain k1 where k1: "checkCheckpoint ?t (raceTime g + dt) (trackBoundary ?t (snd st ! i)) = Inr k1"
    and s: "sameProgress k1 (fst res ! i)"
    using handleCollisions_nth [of ?t "raceTime g + dt" rs "snd st" "racePowerUps g" "fst res" "snd res" i] h i1
    by auto
  have l2: "length (fst res) = length ?ks" using l e by simp
  have "checkpoint (raceKarts g' ! i) = checkpoint k1"
    using s calculatePositions_facts(1) [of i "fst res"] assms(2) l2 e
    by (simp add: sameProgress_def)
  moreover have "checkpoint (trackBoundary ?t (snd st ! i)) = checkpoint (?ks ! i)"
    using p assms(2) trackBoundary_frame [of "snd st ! i" ?t]
    by (simp add: physRel_def sameProgress_def)
  ultimately have "checkpoint (raceKarts g' ! i) =
               (if crossesCheckpoint ?t (trackBoundary ?t (snd st ! i))
                then (checkpoint (?ks ! i) + 1) mod CHECKPOINT_COUNT
                else checkpoint (?ks ! i))"
    using checkCheckpoint_checkpoint [OF k1] by simp
  moreover have "0 \<le> checkpoint (raceKarts g' ! i) \<and> checkpoint (raceKarts g' ! i) < CHECKPOINT_COUNT"
    using rel assms(2) by (simp add: tickRel_def)
  ultimately show ?thesis using t u by blast
qed

theorem checkpoint_advances_in_order_witness:
  "wellFormed lateRace \<and> 0 < length (raceKarts lateRace)
   \<and> (\<exists>g' st. raceTick (2 / 125) (\<lambda>i. 1) (\<lambda>i n. 0) lateRace = Inr g'
          \<and> updateKarts (2 / 125) (raceTrack lateRace) (findPlayer (raceKarts lateRace)) (\<lambda>i. 1)
                [0 ..< length (raceKarts lateRace)] (raceKeys lateRace, raceKarts lateRace) = Inr st
          \<and> checkpoint (raceKarts g' ! 0) =
               (if crossesCheckpoint (raceTrack lateRace) (trackBoundary (raceTrack lateRace) (snd st ! 0))
                then (checkpoint (raceKarts lateRace ! 0) + 1) mod CHECKPOINT_COUNT
                else checkpoint (raceKarts lateRace ! 0))
          \<and> 0 \<le> checkpoint (raceKarts g' ! 0) \<and> checkpoint (raceKarts g' ! 0) < CHECKPOINT_COUNT)"
proof -
  have a: "0 < length (raceKarts lateRace)" by (simp add: lateRace_def)
  show ?thesis
    using checkpoint_advances_in_order [OF lateRace_wf a, of "2 / 125" "\<lambda>i. 1" "\<lambda>i n. 0"] a lateRace_wf
    by blast
qed

text \<open>
  C7. On a tick in which the drifting player kart exits the drift (the drift key is released,
  the steering is 0, or the clamped speed is at most 50), the drift block applies the timed
  boost (\<^verbatim>\<open>boosting = true\<close>, \<^verbatim>\<open>boostTimer = DRIFT_BOOST_DURATION\<close>) if and only
  if the accumulated charge is strictly above 30, and otherwise leaves the boost flag and
  timer as they were; in both cases the drift ends and \<^verbatim>\<open>driftAngleOffset\<close> and the
  charge are reset to 0. The resets still hold at the end of the whole physics step, where
  the boost, unless an item was used in between, stands with the timer already
  reduced by \<open>dt\<close>.
\<close>

theorem drift_release_boost:
  assumes "drifting k"
    "\<not> keyDrift kys \<or> steeringOf kys = 0 \<or> speed (accelerate kys dt k) \<le> 50"
  shows "(let m = driftMechanics kys dt (accelerate kys dt k)
          in driftAngleOffset m = 0 \<and> \<not> drifting m \<and> driftBoost m = 0
             \<and> (if driftBoost k > 30
                 then boosting m \<and> boostTimer m = DRIFT_BOOST_DURATION
                 else boosting m = boosting k \<and> boostTimer m = boostTimer k))
       \<and> (i < length ks \<and> ks ! i = k \<and> \<not> finished k \<longrightarrow>
            (let k' = snd (updatePlayerKart i dt (kys, ks)) ! i
             in driftAngleOffset k' = 0 \<and> \<not> drifting k' \<and> driftBoost k' = 0
                \<and> (driftBoost k > 30 \<and> \<not> (keyUseItem kys \<and> item k \<noteq> None)
                       \<and> dt < DRIFT_BOOST_DURATION
                     \<longrightarrow> boosting k' \<and> boostTimer k' = DRIFT_BOOST_DURATION - dt)))"
proof (intro conjI impI)
  let ?a = "accelerate kys dt k"
  let ?m = "driftMechanics kys dt ?a"
  have d: "drifting ?a" using assms(1) by (simp add: accelerate_drift_fields)
  note r = driftMechanics_release [OF d assms(2), of dt]
  have m: "driftAngleOffset ?m = 0" "\<not> drifting ?m" "driftBoost ?m = 0"
    by (simp_all add: r)
  have b: "if driftBoost k > 30 then boosting ?m \<and> boostTimer ?m = DRIFT_BOOST_DURATION
           else boosting ?m = boosting k \<and> boostTimer ?m = boostTimer k"
    by (simp add: r applyBoost_def accelerate_drift_fields accelerate_flags)
  show "let m = driftMechanics kys dt (accelerate kys dt k)
          in driftAngleOffset m = 0 \<and> \<not> drifting m \<and> driftBoost m = 0
             \<and> (if driftBoost k > 30
                 then boosting m \<and> boostTimer m = DRIFT_BOOST_DURATION
                 else boosting m = boosting k \<and> boostTimer m = boostTimer k)"
    using m b by (simp add: Let_def)
  assume a: "i < length ks \<and> ks ! i = k \<and> \<not> finished k"
  define k1 where "k1 = movePlayer dt ?m"
  define k2 where "k2 = (if keyUseItem kys \<and> item k1 \<noteq> None then useItem i (ks[i := k1]) ! i else k1)"
  have res: "snd (updatePlayerKart i dt (kys, ks)) ! i = Kart_update dt k2"
    using a by (auto simp add: updatePlayerKart_def Let_def k1_def k2_def)
  have k1: "driftAngleOffset k1 = 0" "\<not> drifting k1" "driftBoost k1 = 0"
    using m by (simp_all add: k1_def movePlayer_drift_fields)
  have k2: "driftAngleOffset k2 = 0" "\<not> drifting k2" "driftBoost k2 = 0"
    using k1 a by (simp_all add: k2_def useItem_self_drift_fields)
  have it: "item k1 = item k" using playerMove_facts(4) [of dt kys k] by (simp add: k1_def)
  have boost: "boosting (Kart_update dt k2) \<and> boostTimer (Kart_update dt k2) = DRIFT_BOOST_DURATION - dt"
    if "driftBoost k > 30 \<and> \<not> (keyUseItem kys \<and> item k \<noteq> None) \<and> dt < DRIFT_BOOST_DURATION"
  proof -
    have "k2 = k1" using that it by (auto simp add: k2_def)
    moreover have "boosting k1 \<and> boostTimer k1 = DRIFT_BOOST_DURATION"
      using b that by (simp add: k1_def movePlayer_drift_fields)
    ultimately show ?thesis
      using that Kart_update_boost [of k2 dt] by (simp add: DRIFT_BOOST_DURATION_def)
  qed
  show "let k' = snd (updatePlayerKart i dt (kys, ks)) ! i
             in driftAngleOffset k' = 0 \<and> \<not> drifting k' \<and> driftBoost k' = 0
                \<and> (driftBoost k > 30 \<and> \<not> (keyUseItem kys \<and> item k \<noteq> None)
                       \<and> dt < DRIFT_BOOST_DURATION
                     \<longrightarrow> boosting k' \<and> boostTimer k' = DRIFT_BOOST_DURATION - dt)"
    using k2 boost by (simp add: Let_def res Kart_update_drift_fields)
qed

theorem drift_release_boost_witness:
  "drifting (driftingKart (301 / 10)) \<and> drifting (driftingKart (299 / 10))
   \<and> (let m = driftMechanics exampleKeys (1 / 60) (accelerate exampleKeys (1 / 60) (driftingKart (301 / 10)))
      in driftAngleOffset m = 0 \<and> \<not> drifting m \<and> driftBoost m = 0
         \<and> boosting m \<and> boostTimer m = DRIFT_BOOST_DURATION)
   \<and> (let m = driftMechanics exampleKeys (1 / 60) (accelerate exampleKeys (1 / 60) (driftingKart (299 / 10)))
      in driftAngleOffset m = 0 \<and> \<not> drifting m \<and> driftBoost m = 0
         \<and> \<not> boosting m \<and> boostTimer m = 0)
   \<and> (let k' = snd (updatePlayerKart 0 (1 / 60) (exampleKeys, [driftingKart (301 / 10)])) ! 0
      in driftAngleOffset k' = 0 \<and> \<not> drifting k' \<and> driftBoost k' = 0
         \<and> boosting k' \<and> boostTimer k' = DRIFT_BOOST_DURATION - 1 / 60)"
proof -
  have k: "\<not> keyDrift exampleKeys \<or> steeringOf exampleKeys = 0
           \<or> speed (accelerate exampleKeys (1 / 60) (driftingKart c)) \<le> 50" for c
    by (simp add: exampleKeys_def)
  have u: "\<not> keyUseItem exampleKeys" by (simp add: exampleKeys_def)
  note a = drift_release_boost [OF driftingKart_fields(1) k, of "301 / 10" 0 "[driftingKart (301 / 10)]"]
  note b = drift_release_boost [OF driftingKart_fields(1) k, of "299 / 10" 0 "[driftingKart (299 / 10)]"]
  show ?thesis
    using a b u by (simp add: Let_def driftingKart_fields DRIFT_BOOST_DURATION_def)
qed

text \<open>
  C8, as amended. With a player kart present, the target speed of an AI kart when its speed
  starts to ease towards it is \<open>0.85 \<sqdot> MAX_SPEED\<close>, times \<open>1 + RUBBER_BAND_STRENGTH\<close> when
  its progress is more than 0.5 below the player's, times
  \<open>1 - RUBBER_BAND_STRENGTH \<sqdot> 0.5\<close> when it is more than 0.5 above, times 1 otherwise, and
  times 0.9 once more for every other kart closer than 40 units. In particular an AI kart at
  progress 1.0 behind a player at 1.6, with no kart within 40 units, has target speed
  \<open>0.85 \<sqdot> MAX_SPEED \<sqdot> (1 + RUBBER_BAND_STRENGTH) = 221\<close>.
\<close>

theorem ai_target_speed:
  "aiTargetSpeed i dt t (Some pl) ks =
     0.85 * MAX_SPEED
     * (if totalProgress (ks ! i) - totalProgress (ks ! pl) > 0.5 then 1 - RUBBER_BAND_STRENGTH * 0.5
        else if totalProgress (ks ! i) - totalProgress (ks ! pl) < - 0.5 then 1 + RUBBER_BAND_STRENGTH
        else 1)
     * 0.9 ^ closeKarts i ks"
  by (simp add: aiTargetSpeed_formula rubberBand_def Let_def)

theorem ai_target_speed_witness:
  "aiTargetSpeed 1 (1 / 60) Track_new (Some 0) (chasingKarts 100)
     = 0.85 * MAX_SPEED * (1 + RUBBER_BAND_STRENGTH)
   \<and> aiTargetSpeed 1 (1 / 60) Track_new (Some 0) (chasingKarts 100) = 221"
  using ai_target_speed [of 1 "1 / 60" Track_new 0 "chasingKarts 100"]
  by (simp add: closeKarts_chasing chasingKarts_progress CONFIG_defs)

text \<open>
  C8 as stated fails when another kart is near: the avoidance loop, which runs after the
  rubber-banding and before the easing, scales the target speed by 0.9 for each kart closer
  than 40 units. With the player 30 units ahead, the AI kart of scenario 5 has target speed
  198.9, not 221.
\<close>

theorem ai_target_speed_counterexample:
  "totalProgress (chasingKarts 30 ! 1) = 1 \<and> totalProgress (chasingKarts 30 ! 0) = 1.6
   \<and> aiTargetSpeed 1 (1 / 60) Track_new (Some 0) (chasingKarts 30) = 1989 / 10
   \<and> 0.85 * MAX_SPEED * (1 + RUBBER_BAND_STRENGTH) = 221"
  by (simp add: aiTargetSpeed_formula rubberBand_def Let_def closeKarts_chasing
      chasingKarts_progress CONFIG_defs)

text \<open>
  C9. Whenever the track-boundary correction fires for a kart, the position it is snapped to
  has an ellipse-normalised track distance equal to the violated corridor limit: the inner
  limit when the kart was below it, the outer limit when it was above. (Over the reals the
  equality is exact; the track needs positive radii and a corridor half-width, less the
  margin of 15, between 0 and the smaller radius, as the track of the game has.)
\<close>

theorem trackBoundary_lands_on_limit:
  assumes "0 < radiusX t" "0 < radiusY t" "0 \<le> width t / 2 - 15"
    "width t / 2 - 15 \<le> min (radiusX t) (radiusY t)"
  shows "(getTrackDistance t (xpos kart) (ypos kart) < innerLimit t \<longrightarrow>
            getTrackDistance t (xpos (trackBoundary t kart)) (ypos (trackBoundary t kart)) = innerLimit t)
       \<and> (getTrackDistance t (xpos kart) (ypos kart) > outerLimit t \<longrightarrow>
            getTrackDistance t (xpos (trackBoundary t kart)) (ypos (trackBoundary t kart)) = outerLimit t)"
proof -
  note lim = limits_order [OF assms]
  have snap: "0 \<le> td \<Longrightarrow>
     getTrackDistance t (centerX t + cos a * td * radiusX t) (centerY t + sin a * td * radiusY t) = td" for a td
    unfolding getTrackDistance_def Let_def using snap_distance [OF assms(1,2)] by blast
  show ?thesis
  proof (intro conjI impI)
    assume "getTrackDistance t (xpos kart) (ypos kart) < innerLimit t"
    then show "getTrackDistance t (xpos (trackBoundary t kart)) (ypos (trackBoundary t kart)) = innerLimit t"
      using snap [OF lim(1)] by (simp add: trackBoundary_def Let_def)
  next
    assume a: "getTrackDistance t (xpos kart) (ypos kart) > outerLimit t"
    then have "\<not> getTrackDistance t (xpos kart) (ypos kart) < innerLimit t" using lim by linarith
    moreover have "0 \<le> outerLimit t" using lim by linarith
    ultimately show "getTrackDistance t (xpos (trackBoundary t kart)) (ypos (trackBoundary t kart)) = outerLimit t"
      using a snap by (simp add: trackBoundary_def Let_def)
  qed
qed

theorem trackBoundary_lands_on_limit_witness:
  "getTrackDistance Track_new 816 300 > outerLimit Track_new
   \<and> getTrackDistance Track_new
        (xpos (trackBoundary Track_new (Kart_new 816 300 0 True)))
        (ypos (trackBoundary Track_new (Kart_new 816 300 0 True))) = outerLimit Track_new
   \<and> getTrackDistance Track_new 560 300 < innerLimit Track_new
   \<and> getTrackDistance Track_new
        (xpos (trackBoundary Track_new (Kart_new 560 300 0 True)))
        (ypos (trackBoundary Track_new (Kart_new 560 300 0 True))) = innerLimit Track_new"
proof -
  have o: "getTrackDistance Track_new 816 300 > outerLimit Track_new"
    by (simp add: getTrackDistance_def Track_new_simps Track_new_limits)
  have i: "getTrackDistance Track_new 560 300 < innerLimit Track_new"
    by (simp add: getTrackDistance_def Track_new_simps Track_new_limits)
  have x: "xpos (Kart_new x y a p) = x" "ypos (Kart_new x y a p) = y" for x y a p
    by (simp_all add: Kart_new_def)
  show ?thesis
    using trackBoundary_lands_on_limit [of Track_new "Kart_new 816 300 0 True"]
      trackBoundary_lands_on_limit [of Track_new "Kart_new 560 300 0 True"] o i
    by (simp add: Track_new_simps x)
qed

text \<open>
  C10, as amended. For a kart whose finished flag is true, its own physics step
  (\<^verbatim>\<open>updatePlayerKart\<close> or \<^verbatim>\<open>updateAIKart\<close>) returns at once and leaves the
  kart, every other kart and the keys unchanged. Outside the collision pass a finished kart can
  still change in two ways: the physics step of another kart can set its
  \<^verbatim>\<open>slowed\<close> flag and \<^verbatim>\<open>slowTimer\<close> (the slow item) and nothing else, and the
  ranking can write its \<^verbatim>\<open>position\<close> and nothing else.
\<close>

theorem finished_kart_physics_frame:
  assumes "i < length ks" "finished (ks ! i)"
  shows "updatePlayerKart i dt (kys, ks) = (kys, ks)
       \<and> updateAIKart i dt t p r ks = Inr ks
       \<and> (j < length ks \<and> j \<noteq> i \<longrightarrow>
            (snd (updatePlayerKart j dt (kys, ks)) ! i)
              \<lparr>slowed := slowed (ks ! i), slowTimer := slowTimer (ks ! i)\<rparr> = ks ! i)
       \<and> (j < length ks \<and> j \<noteq> i \<and> waypoints t \<noteq> [] \<longrightarrow>
            (\<exists>ks'. updateAIKart j dt t p r ks = Inr ks'
               \<and> (ks' ! i)\<lparr>slowed := slowed (ks ! i), slowTimer := slowTimer (ks ! i)\<rparr> = ks ! i))
       \<and> (calculatePositions ks ! i)\<lparr>position := position (ks ! i)\<rparr> = ks ! i"
proof (intro conjI impI)
  show "updatePlayerKart i dt (kys, ks) = (kys, ks)"
    using assms(2) by (simp add: updatePlayerKart_finished)
  show "updateAIKart i dt t p r ks = Inr ks"
    using assms(2) by (rule updateAIKart_finished)
next
  assume a: "j < length ks \<and> j \<noteq> i"
  then have "i \<noteq> j" by simp
  from updatePlayerKart_other [OF assms(1) this, of dt kys]
  show "(snd (updatePlayerKart j dt (kys, ks)) ! i)
          \<lparr>slowed := slowed (ks ! i), slowTimer := slowTimer (ks ! i)\<rparr> = ks ! i"
    by (rule slowed_only)
next
  assume a: "j < length ks \<and> j \<noteq> i \<and> waypoints t \<noteq> []"
  then obtain ks' where k: "updateAIKart j dt t p r ks = Inr ks'"
    using updateAIKart_total [of t j dt p r ks] by blast
  have "i \<noteq> j" using a by simp
  from updateAIKart_other [OF k assms(1) this]
  have "(ks' ! i)\<lparr>slowed := slowed (ks ! i), slowTimer := slowTimer (ks ! i)\<rparr> = ks ! i"
    by (rule slowed_only)
  then show "\<exists>ks'. updateAIKart j dt t p r ks = Inr ks'
               \<and> (ks' ! i)\<lparr>slowed := slowed (ks ! i), slowTimer := slowTimer (ks ! i)\<rparr> = ks ! i"
    using k by blast
next
  have "(calculatePositions ks ! i)\<lparr>position := position (ks ! i)\<rparr>
        = ((ks ! i)\<lparr>position := position (calculatePositions ks ! i)\<rparr>)\<lparr>position := position (ks ! i)\<rparr>"
    using calculatePositions_nth [OF assms(1)] by simp
  then show "(calculatePositions ks ! i)\<lparr>position := position (ks ! i)\<rparr> = ks ! i" by simp
qed

theorem finished_kart_physics_frame_witness:
  "finished (raceKarts lateRace ! 2)
   \<and> updatePlayerKart 2 (2 / 125) (exampleKeys, raceKarts lateRace) = (exampleKeys, raceKarts lateRace)
   \<and> updateAIKart 2 (2 / 125) Track_new (Some 0) 0 (raceKarts lateRace) = Inr (raceKarts lateRace)
   \<and> (snd (updatePlayerKart 0 (2 / 125) (exampleKeys, raceKarts lateRace)) ! 2)
        \<lparr>slowed := slowed (raceKarts lateRace ! 2), slowTimer := slowTimer (raceKarts lateRace ! 2)\<rparr>
      = raceKarts lateRace ! 2
   \<and> (\<exists>ks'. updateAIKart 0 (2 / 125) Track_new (Some 0) 0 (raceKarts lateRace) = Inr ks'
          \<and> (ks' ! 2)\<lparr>slowed := slowed (raceKarts lateRace ! 2), slowTimer := slowTimer (raceKarts lateRace ! 2)\<rparr>
            = raceKarts lateRace ! 2)
   \<and> (calculatePositions (raceKarts lateRace) ! 2)\<lparr>position := position (raceKarts lateRace ! 2)\<rparr>
      = raceKarts lateRace ! 2"
proof -
  have a: "2 < length (raceKarts lateRace)" "finished (raceKarts lateRace ! 2)"
    "0 < length (raceKarts lateRace)"
    by (simp_all add: lateRace_fields finishedAI_fields)
  show ?thesis
    using finished_kart_physics_frame [OF a(1,2), of "2 / 125" exampleKeys Track_new "Some 0" 0 0]
      a Track_new_wf(2)
    by simp
qed

text \<open>
  C10 as stated fails in its last clause: the collision pass is not the only code that still
  modifies a finished kart. When the player uses the slow item in its physics step, a finished
  AI kart without a shield is slowed.
\<close>

theorem finished_kart_slowed_counterexample:
  "finished (finishedAI 300)
   \<and> snd (updatePlayerKart 0 (2 / 125)
            (exampleKeys\<lparr>keyUseItem := True\<rparr>,
             [boostedPlayer\<lparr>item := Some Slow\<rparr>, finishedAI 260, finishedAI 300, finishedAI 340])) ! 2
      = (finishedAI 300)\<lparr>slowed := True, slowTimer := 3\<rparr>
   \<and> (finishedAI 300)\<lparr>slowed := True, slowTimer := 3\<rparr> \<noteq> finishedAI 300"
proof -
  let ?ks = "[boostedPlayer\<lparr>item := Some Slow\<rparr>, finishedAI 260, finishedAI 300, finishedAI 340]"
  have "snd (updatePlayerKart 0 (2 / 125) (exampleKeys\<lparr>keyUseItem := True\<rparr>, ?ks)) ! 2
        = (?ks ! 2)\<lparr>slowed := True, slowTimer := SLOW_DURATION\<rparr>"
    by (rule updatePlayerKart_slows_others)
       (simp_all add: boostedPlayer_fields finishedAI_def Kart_new_def)
  moreover have "slowed ((finishedAI 300)\<lparr>slowed := True, slowTimer := 3\<rparr>) \<noteq> slowed (finishedAI 300)"
    by (simp add: finishedAI_def Kart_new_def)
  then have "(finishedAI 300)\<lparr>slowed := True, slowTimer := 3\<rparr> \<noteq> finishedAI 300" by metis
  ultimately show ?thesis by (simp add: finishedAI_fields SLOW_DURATION_def)
qed

end
